theory Spec2Isabelle
  imports Complex_Main
begin

section \<open>MoodMate: sentiment classifier, quote choice and weekly mood trend\<close>

text \<open>
  A shallow embedding of \<^verbatim>\<open>server/services/sentiment.ts\<close> (\<^verbatim>\<open>analyzeSentiment\<close>,
  \<^verbatim>\<open>getMoodQuoteTag\<close>) and of the two handlers of \<^verbatim>\<open>server/routes.ts\<close> that carry
  logic: \<^verbatim>\<open>POST /api/journal/entries\<close> (input guard, quote choice) and
  \<^verbatim>\<open>GET /api/mood/weekly\<close> (the seven-day trend).

  Conventions of the embedding.
  \<^item> A JavaScript string is a \<^typ>\<open>string\<close>; a \<^typ>\<open>char\<close> stands for a UTF-16 code unit
    below 256 (Basic Latin and the Latin-1 supplement). The character classes and case
    mappings below are the ones ECMAScript gives to these code units.
  \<^item> A JavaScript number that holds a count is a \<^typ>\<open>nat\<close>; the confidence, a quotient
    of counts, is a \<^typ>\<open>real\<close> (the rounding of binary floating point is not modelled).
  \<^item> A \<^verbatim>\<open>Date\<close> is its time value, an \<^typ>\<open>int\<close> of milliseconds since the epoch.
\<close>

subsection \<open>Code units: case mapping and the regular-expression classes\<close>

text \<open>\<^verbatim>\<open>String.prototype.toLowerCase\<close> on one code unit: A-Z and the upper-case letters of
  Latin-1 (0xC0-0xDE without the multiplication sign 0xD7) move up by 32.\<close>

definition toLowerChar :: "char \<Rightarrow> char" where
  "toLowerChar c =
     (let n = (of_char c :: int)
      in if (65 \<le> n \<and> n \<le> 90) \<or> (192 \<le> n \<and> n \<le> 222 \<and> n \<noteq> 215)
         then char_of (n + 32) else c)"

definition toLowerCase :: "string \<Rightarrow> string" where
  "toLowerCase s = map toLowerChar s"

text \<open>The class \<^verbatim>\<open>\s\<close>: tab, line feed, vertical tab, form feed, carriage return, space
  and the no-break space.\<close>

definition isWhiteSpace :: "char \<Rightarrow> bool" where
  "isWhiteSpace c =
     (let n = (of_char c :: int)
      in (9 \<le> n \<and> n \<le> 13) \<or> n = 32 \<or> n = 160)"

text \<open>The class \<^verbatim>\<open>\w\<close>, which decides the assertion \<^verbatim>\<open>\b\<close>: digits, letters of Basic
  Latin and the underscore (the pattern has no \<^verbatim>\<open>u\<close> flag, so nothing else).\<close>

definition isWordChar :: "char \<Rightarrow> bool" where
  "isWordChar c =
     (let n = (of_char c :: int)
      in (48 \<le> n \<and> n \<le> 57) \<or> (65 \<le> n \<and> n \<le> 90) \<or> n = 95 \<or> (97 \<le> n \<and> n \<le> 122))"

text \<open>The flag \<^verbatim>\<open>i\<close> compares code units after \<^verbatim>\<open>Canonicalize\<close>, which is
  \<^verbatim>\<open>toUpperCase\<close> where that yields one code unit. Below 256 it moves a-z and the
  lower-case letters of Latin-1 (0xE0-0xFE without the division sign 0xF7) down by 32;
  the micro sign and y-diaeresis go to code units above 255 that nothing else below 256
  reaches, and sharp s is kept, so the three stand for themselves.\<close>

definition canonicalize :: "char \<Rightarrow> char" where
  "canonicalize c =
     (let n = (of_char c :: int)
      in if (97 \<le> n \<and> n \<le> 122) \<or> (224 \<le> n \<and> n \<le> 254 \<and> n \<noteq> 247)
         then char_of (n - 32) else c)"

subsection \<open>String operations of the classifier\<close>

text \<open>\<^verbatim>\<open>haystack.includes(needle)\<close>: some position of the haystack starts a copy of the
  needle.\<close>

fun startsWith :: "string \<Rightarrow> string \<Rightarrow> bool" where
  "startsWith s [] = True"
| "startsWith [] (c # needle) = False"
| "startsWith (d # s) (c # needle) = (d = c \<and> startsWith s needle)"

fun includesStr :: "string \<Rightarrow> string \<Rightarrow> bool" where
  "includesStr [] needle = (needle = [])"
| "includesStr (c # s) needle = (startsWith (c # s) needle \<or> includesStr s needle)"

text \<open>\<^verbatim>\<open>s.split(/\s+/)\<close>: the pieces between the maximal runs of white space. A run at
  the start or at the end leaves an empty piece there, and the empty string gives the one
  piece \<^verbatim>\<open>""\<close>. The first argument is the piece being read.\<close>

function splitFrom :: "string \<Rightarrow> string \<Rightarrow> string list" where
  "splitFrom piece [] = [piece]"
| "splitFrom piece (c # s) =
     (if isWhiteSpace c then piece # splitFrom [] (dropWhile isWhiteSpace s)
      else splitFrom (piece @ [c]) s)"
  by pat_completeness auto
termination
  by (relation "measure (\<lambda>(piece, s). length s)")
     (auto simp: le_imp_less_Suc length_dropWhile_le)

definition splitWhiteSpace :: "string \<Rightarrow> string list" where
  "splitWhiteSpace s = splitFrom [] s"

text \<open>The assertion \<^verbatim>\<open>\b\<close> at index \<open>i\<close>: exactly one of the code units at \<open>i - 1\<close> and
  \<open>i\<close> is a word character, a position outside the string counting as none.\<close>

definition isWordCharAt :: "string \<Rightarrow> nat \<Rightarrow> bool" where
  "isWordCharAt s i = (i < length s \<and> isWordChar (s ! i))"

definition wordBoundary :: "string \<Rightarrow> nat \<Rightarrow> bool" where
  "wordBoundary s i = ((0 < i \<and> isWordCharAt s (i - 1)) \<noteq> isWordCharAt s i)"

text \<open>The matcher of \<^verbatim>\<open>new RegExp(`\\b${keyword}\\b`, 'gi')\<close> at index \<open>i\<close>. Every keyword
  of the scored categories is made of letters only, so the pattern between the two
  assertions is the keyword read literally.\<close>

definition matcher :: "string \<Rightarrow> string \<Rightarrow> nat \<Rightarrow> bool" where
  "matcher keyword s i =
     (wordBoundary s i \<and>
      i + length keyword \<le> length s \<and>
      map canonicalize (take (length keyword) (drop i s)) = map canonicalize keyword \<and>
      wordBoundary s (i + length keyword))"

text \<open>\<^verbatim>\<open>s.match(regex)\<close> with the flag \<^verbatim>\<open>g\<close>: the search runs from \<^verbatim>\<open>lastIndex\<close>, moves on
  by one where the matcher fails, and after a match resumes at its end (one further
  after an empty match). The result is \<^verbatim>\<open>null\<close> when nothing matched.\<close>

function matchFrom :: "string \<Rightarrow> string \<Rightarrow> nat \<Rightarrow> string list" where
  "matchFrom keyword s lastIndex =
     (if length s < lastIndex then []
      else if matcher keyword s lastIndex
        then take (length keyword) (drop lastIndex s) #
             matchFrom keyword s (if keyword = [] then Suc lastIndex else lastIndex + length keyword)
      else matchFrom keyword s (Suc lastIndex))"
  by pat_completeness auto
termination
  by (relation "measure (\<lambda>(keyword, s, lastIndex). Suc (length s) - lastIndex)")
     (auto simp: neq_Nil_conv)

declare matchFrom.simps [simp del]

definition matchGlobal :: "string \<Rightarrow> string \<Rightarrow> string list option" where
  "matchGlobal keyword s = (case matchFrom keyword s 0 of [] \<Rightarrow> None | m # ms \<Rightarrow> Some (m # ms))"

subsection \<open>\<^verbatim>\<open>analyzeSentiment\<close>\<close>

datatype MoodType = happy | sad | anxious | suicidal | neutral

record SentimentAnalysisResult =
  mood :: MoodType
  confidence :: real
  isCrisis :: bool

definition happyKeywords :: "string list" where
  "happyKeywords =
     [''happy'', ''joy'', ''excited'', ''grateful'', ''blessed'', ''amazing'', ''wonderful'',
      ''great'', ''fantastic'', ''love'', ''celebration'', ''success'', ''achievement'',
      ''proud'', ''smile'', ''laugh'']"

definition sadKeywords :: "string list" where
  "sadKeywords =
     [''sad'', ''depressed'', ''down'', ''upset'', ''disappointed'', ''heartbroken'',
      ''crying'', ''tears'', ''lonely'', ''empty'', ''loss'', ''grief'', ''miss'', ''hurt'',
      ''pain'']"

definition anxiousKeywords :: "string list" where
  "anxiousKeywords =
     [''anxious'', ''worried'', ''nervous'', ''stress'', ''panic'', ''overwhelmed'',
      ''scared'', ''fear'', ''tension'', ''restless'', ''uncertain'', ''doubt'', ''pressure'',
      ''worry'']"

definition suicidalKeywords :: "string list" where
  "suicidalKeywords =
     [''suicide'', ''kill myself'', ''end it all'', ''want to die'', ''no point'',
      ''hopeless'', ''worthless'', ''better off dead'', [CHR ''c'', CHR ''a'', CHR ''n'',
      CHR 0x27, CHR ''t'', CHR '' '', CHR ''g'', CHR ''o'', CHR '' '', CHR ''o'', CHR ''n''],
      ''give up'', ''end my life'']"

text \<open>\<^verbatim>\<open>Object.entries(moodKeywords)\<close>, in the order of the literal.\<close>

definition moodKeywords :: "(MoodType \<times> string list) list" where
  "moodKeywords =
     [(happy, happyKeywords), (sad, sadKeywords), (anxious, anxiousKeywords),
      (suicidal, suicidalKeywords)]"

text \<open>\<^verbatim>\<open>moodScores\<close> is an object with the five keys of its literal; \<^verbatim>\<open>Object.entries\<close>
  and \<^verbatim>\<open>Object.values\<close> list it in the order of the literal, so it is the list of its
  entries. \<^verbatim>\<open>moodScores[mood] += n\<close> changes the entry of a key that is present.\<close>

definition initialScores :: "(MoodType \<times> nat) list" where
  "initialScores = [(happy, 0), (sad, 0), (anxious, 0), (suicidal, 0), (neutral, 0)]"

definition addScore :: "MoodType \<Rightarrow> nat \<Rightarrow> (MoodType \<times> nat) list \<Rightarrow> (MoodType \<times> nat) list" where
  "addScore m n moodScores = map (\<lambda>(k, v). if k = m then (k, v + n) else (k, v)) moodScores"

definition hasCrisisKeywords :: "string \<Rightarrow> bool" where
  "hasCrisisKeywords lowerText =
     list_ex (\<lambda>keyword. includesStr lowerText (toLowerCase keyword)) suicidalKeywords"

text \<open>The body of the inner \<^verbatim>\<open>forEach\<close>: one keyword adds the number of its matches.\<close>

definition addMatches :: "string \<Rightarrow> MoodType \<Rightarrow> string \<Rightarrow> (MoodType \<times> nat) list \<Rightarrow> (MoodType \<times> nat) list" where
  "addMatches lowerText m keyword moodScores =
     (case matchGlobal keyword lowerText of
        None \<Rightarrow> moodScores
      | Some matches \<Rightarrow> addScore m (length matches) moodScores)"

definition countKeywordMatches :: "string \<Rightarrow> (MoodType \<times> nat) list" where
  "countKeywordMatches lowerText =
     fold (\<lambda>(m, keywords) moodScores.
             if m = suicidal then moodScores
             else fold (addMatches lowerText m) keywords moodScores)
          moodKeywords initialScores"

text \<open>What the inner \<^verbatim>\<open>forEach\<close> adds for one category: the matches of all its
  keywords.\<close>

definition keywordMatches :: "string list \<Rightarrow> string \<Rightarrow> nat" where
  "keywordMatches keywords s =
     sum_list (map (\<lambda>keyword. length (matchFrom keyword s 0)) keywords)"

text \<open>\<^verbatim>\<open>Math.max(...Object.values(moodScores))\<close>; the scores are counts, so the maximum of
  the five values is taken from 0 upwards.\<close>

definition maxOf :: "nat list \<Rightarrow> nat" where
  "maxOf values = fold max values 0"

definition analyzeSentiment :: "string \<Rightarrow> SentimentAnalysisResult" where
  "analyzeSentiment text =
     (let lowerText = toLowerCase text;
          words = splitWhiteSpace lowerText
      in if hasCrisisKeywords lowerText
         then \<lparr>mood = suicidal, confidence = 9 / 10, isCrisis = True\<rparr>
         else
           let moodScores = countKeywordMatches lowerText;
               maxScore = maxOf (map snd moodScores)
           in if maxScore = 0
              then \<lparr>mood = neutral, confidence = 1 / 2, isCrisis = False\<rparr>
              else
                let detectedMood = map_option fst (find (\<lambda>(_, score). score = maxScore) moodScores)
                in \<lparr>mood = (case detectedMood of Some m \<Rightarrow> m | None \<Rightarrow> neutral),
                    confidence = min (real maxScore / real (length words) * 10) 1,
                    isCrisis = False\<rparr>)"

subsection \<open>\<^verbatim>\<open>getMoodQuoteTag\<close>\<close>

fun getMoodQuoteTag :: "MoodType \<Rightarrow> string" where
  "getMoodQuoteTag happy = ''happy''"
| "getMoodQuoteTag sad = ''sad''"
| "getMoodQuoteTag suicidal = ''sad''"
| "getMoodQuoteTag anxious = ''anxious''"
| "getMoodQuoteTag neutral = ''general''"

subsection \<open>The handler of \<^verbatim>\<open>POST /api/journal/entries\<close>\<close>

text \<open>The handler answers a request either with a failure (a status and its message) or
  with its result.\<close>

datatype failure = EntryTextRequired | FailedToFetchMoodData

text \<open>\<^verbatim>\<open>req.body.entryText\<close> is any JSON value: a string, or something that is not one.\<close>

datatype jsonValue = JString string | NotAString

text \<open>The guard \<^verbatim>\<open>if (!entryText || typeof entryText !== 'string')\<close> answers 400 for the
  empty string (the one string that is falsy) and for every value that is not a string;
  only then is \<^verbatim>\<open>analyzeSentiment\<close> called.\<close>

definition sentimentResult :: "jsonValue \<Rightarrow> failure + SentimentAnalysisResult" where
  "sentimentResult entryText =
     (case entryText of
        NotAString \<Rightarrow> Inl EntryTextRequired
      | JString s \<Rightarrow> if s = [] then Inl EntryTextRequired else Inr (analyzeSentiment s))"

text \<open>A row of the table of quotes; \<^verbatim>\<open>id\<close> is its serial key.\<close>

record Quote =
  id' :: nat
  quoteText :: string
  author :: "string option"
  moodTag :: string

text \<open>\<^verbatim>\<open>availableQuotes[Math.floor(Math.random() * availableQuotes.length)]\<close>, the value
  \<open>r\<close> being what \<^verbatim>\<open>Math.random()\<close> returned. An index outside the array reads
  \<^verbatim>\<open>undefined\<close>.\<close>

definition randomQuote :: "real \<Rightarrow> Quote list \<Rightarrow> Quote option" where
  "randomQuote r availableQuotes =
     (let i = \<lfloor>r * real (length availableQuotes)\<rfloor>
      in if 0 \<le> i \<and> i < int (length availableQuotes) then Some (availableQuotes ! nat i)
         else None)"

text \<open>\<^verbatim>\<open>randomQuote?.id || null\<close>: no quote, or a quote whose id is 0, gives \<^verbatim>\<open>null\<close>.\<close>

definition quoteId :: "Quote option \<Rightarrow> nat option" where
  "quoteId q = (case q of None \<Rightarrow> None | Some x \<Rightarrow> if id' x = 0 then None else Some (id' x))"

subsection \<open>The handler of \<^verbatim>\<open>GET /api/mood/weekly\<close>\<close>

text \<open>Of a journal entry the handler reads the creation time, which the schema allows
  to be absent, and the mood; the column of moods is only ever written with the mood
  that \<^verbatim>\<open>analyzeSentiment\<close> returned.\<close>

record JournalEntry =
  createdAt :: "int option"
  detectedMood :: MoodType

definition msPerDay :: int where
  "msPerDay = 86400000"

text \<open>\<^verbatim>\<open>d.toISOString().split('T')[0]\<close> is the calendar date of the time value in UTC,
  written \<^verbatim>\<open>YYYY-MM-DD\<close>. The string and the number of the UTC day determine each other,
  so the number stands for the string. The key \<^verbatim>\<open>''\<close> of an entry without creation time
  is \<^const>\<open>None\<close>.\<close>

definition isoDate :: "int \<Rightarrow> int" where
  "isoDate t = t div msPerDay"

definition entryDateKey :: "JournalEntry \<Rightarrow> int option" where
  "entryDateKey entry = map_option isoDate (createdAt entry)"

text \<open>The first \<^verbatim>\<open>forEach\<close>: each entry is pushed to the array under its date key, which
  is created empty when the key is new.\<close>

definition pushMood :: "JournalEntry \<Rightarrow> (int option \<rightharpoonup> MoodType list) \<Rightarrow> (int option \<rightharpoonup> MoodType list)" where
  "pushMood entry moodByDate =
     (let dateKey = entryDateKey entry
      in case moodByDate dateKey of
           None \<Rightarrow> moodByDate(dateKey \<mapsto> [detectedMood entry])
         | Some moods \<Rightarrow> moodByDate(dateKey \<mapsto> moods @ [detectedMood entry]))"

definition groupByDate :: "JournalEntry list \<Rightarrow> (int option \<rightharpoonup> MoodType list)" where
  "groupByDate entries = fold pushMood entries Map.empty"

text \<open>\<^verbatim>\<open>moodCounts[mood] = (moodCounts[mood] || 0) + 1\<close>. \<^verbatim>\<open>Object.entries(moodCounts)\<close>
  lists the keys in the order of their first insertion, so the object is the list of
  its entries.\<close>

definition countMood :: "MoodType \<Rightarrow> (MoodType \<times> nat) list \<Rightarrow> (MoodType \<times> nat) list" where
  "countMood m moodCounts =
     (case map_of moodCounts m of
        None \<Rightarrow> moodCounts @ [(m, 1)]
      | Some c \<Rightarrow> map (\<lambda>(k, v). if k = m then (k, c + 1) else (k, v)) moodCounts)"

text \<open>\<^verbatim>\<open>sort((a, b) => b[1] - a[1])\<close> is a stable sort by falling count, as
  \<^const>\<open>sort_key\<close> is on the negated count. \<^verbatim>\<open>sortedMoods[0]\<close> of an empty array is
  \<^verbatim>\<open>undefined\<close>, and reading its count throws; the handler's \<^verbatim>\<open>catch\<close> answers 500.\<close>

definition dominantMood :: "MoodType list \<Rightarrow> failure + MoodType" where
  "dominantMood dayMoods =
     (if 0 < length dayMoods then
        let moodCounts = fold countMood dayMoods [];
            sortedMoods = sort_key (\<lambda>(m, c). - int c) moodCounts
        in case sortedMoods of
             [] \<Rightarrow> Inl FailedToFetchMoodData
           | topMood # rest \<Rightarrow>
               let tiedMoods = filter (\<lambda>(m, c). c = snd topMood) sortedMoods
               in if 1 < length tiedMoods then Inr neutral else Inr (fst topMood)
      else Inr neutral)"

text \<open>The host's time zone is the function \<^verbatim>\<open>LocalTZA(t, isUTC)\<close> that ECMAScript leaves to
  the implementation: the offset of local time from UTC in milliseconds, at the UTC
  time value \<open>t\<close> when \<open>isUTC\<close> holds and at the local time value \<open>t\<close> otherwise.
  \<^verbatim>\<open>getDate\<close> and \<^verbatim>\<open>setDate\<close> work on local time: \<^verbatim>\<open>LocalTime\<close> adds the offset to a UTC
  time value and \<^verbatim>\<open>UTC\<close> takes it off a local one.\<close>

type_synonym timeZone = "int \<Rightarrow> bool \<Rightarrow> int"

definition LocalTime :: "timeZone \<Rightarrow> int \<Rightarrow> int" where
  "LocalTime LocalTZA t = t + LocalTZA t True"

definition UTC :: "timeZone \<Rightarrow> int \<Rightarrow> int" where
  "UTC LocalTZA t = t - LocalTZA t False"

text \<open>\<^verbatim>\<open>date.setDate(date.getDate() - i)\<close> keeps the local time of day and moves the local
  calendar day back by \<open>i\<close>, through the ends of months and years (\<^verbatim>\<open>MakeDay\<close> turns the
  day of the month less \<open>i\<close> into the day number less \<open>i\<close>); the new local time goes
  back to UTC with the offset in force at that local time.\<close>

definition setDateBack :: "timeZone \<Rightarrow> int \<Rightarrow> nat \<Rightarrow> int" where
  "setDateBack LocalTZA t i = UTC LocalTZA (LocalTime LocalTZA t - int i * msPerDay)"

text \<open>An element of \<^verbatim>\<open>weeklyData\<close> is the object \<^verbatim>\<open>{date, mood, entries}\<close>.\<close>

record WeeklyPoint =
  wdate :: int
  wmood :: MoodType
  wentries :: nat

text \<open>One round of the loop \<^verbatim>\<open>for (let i = 6; i >= 0; i--)\<close>. Every round reads the
  clock with \<^verbatim>\<open>new Date()\<close>; \<open>clock i\<close> is the time value read in the round of index
  \<open>i\<close>.\<close>

definition weeklyPoint :: "timeZone \<Rightarrow> (nat \<Rightarrow> int) \<Rightarrow> (int option \<rightharpoonup> MoodType list) \<Rightarrow> nat \<Rightarrow> failure + WeeklyPoint" where
  "weeklyPoint LocalTZA clock moodByDate i =
     (let date = clock i;
          dateKey = isoDate (setDateBack LocalTZA date i);
          dayMoods = (case moodByDate (Some dateKey) of None \<Rightarrow> [] | Some moods \<Rightarrow> moods)
      in case dominantMood dayMoods of
           Inl e \<Rightarrow> Inl e
         | Inr m \<Rightarrow> Inr \<lparr>wdate = dateKey, wmood = m, wentries = length dayMoods\<rparr>)"

fun weekLoop :: "timeZone \<Rightarrow> (nat \<Rightarrow> int) \<Rightarrow> (int option \<rightharpoonup> MoodType list) \<Rightarrow> nat \<Rightarrow> WeeklyPoint list \<Rightarrow> failure + WeeklyPoint list" where
  "weekLoop LocalTZA clock moodByDate i weeklyData =
     (case weeklyPoint LocalTZA clock moodByDate i of
        Inl e \<Rightarrow> Inl e
      | Inr p \<Rightarrow>
          (case i of
             0 \<Rightarrow> Inr (weeklyData @ [p])
           | Suc j \<Rightarrow> weekLoop LocalTZA clock moodByDate j (weeklyData @ [p])))"

declare weekLoop.simps [simp del]

text \<open>The body of the handler, from the entries that the storage returned.\<close>

definition weeklyData :: "timeZone \<Rightarrow> (nat \<Rightarrow> int) \<Rightarrow> JournalEntry list \<Rightarrow> failure + WeeklyPoint list" where
  "weeklyData LocalTZA clock entries = weekLoop LocalTZA clock (groupByDate entries) 6 []"

subsection \<open>Whole-word occurrences, as the specification words them\<close>

text \<open>An occurrence of the keyword as a whole word at index \<open>i\<close>: the code units from
  \<open>i\<close> on spell the keyword up to letter case, and neither the code unit before the
  occurrence nor the one after it is a word character.\<close>

definition wholeWordAt :: "string \<Rightarrow> string \<Rightarrow> nat \<Rightarrow> bool" where
  "wholeWordAt keyword s i =
     (i + length keyword \<le> length s \<and>
      map canonicalize (take (length keyword) (drop i s)) = map canonicalize keyword \<and>
      \<not> (0 < i \<and> isWordCharAt s (i - 1)) \<and>
      \<not> isWordCharAt s (i + length keyword))"

definition wholeWordCount :: "string \<Rightarrow> string \<Rightarrow> nat" where
  "wholeWordCount keyword s = length (filter (wholeWordAt keyword s) [0..<Suc (length s)])"

definition categorySum :: "string list \<Rightarrow> string \<Rightarrow> nat" where
  "categorySum keywords s = sum_list (map (\<lambda>keyword. wholeWordCount keyword s) keywords)"

subsection \<open>White-space-delimited tokens, as the specification words the word count\<close>

text \<open>The tokens of a text are its maximal runs of code units that are not white
  space. The first argument is the token being read.\<close>

fun tokensFrom :: "string \<Rightarrow> string \<Rightarrow> string list" where
  "tokensFrom token [] = (if token = [] then [] else [token])"
| "tokensFrom token (c # s) =
     (if isWhiteSpace c
      then (if token = [] then tokensFrom [] s else token # tokensFrom [] s)
      else tokensFrom (token @ [c]) s)"

definition whitespaceTokens :: "string \<Rightarrow> string list" where
  "whitespaceTokens s = tokensFrom [] s"

section \<open>Properties\<close>

subsection \<open>The crisis check\<close>

lemma startsWith_iff: "startsWith s needle \<longleftrightarrow> (\<exists>post. s = needle @ post)"
  by (induction s needle rule: startsWith.induct) auto

lemma includesStr_iff: "includesStr s needle \<longleftrightarrow> (\<exists>pre post. s = pre @ needle @ post)"
proof (induction s)
  case Nil
  show ?case by auto
next
  case (Cons c s)
  show ?case
  proof
    assume "includesStr (c # s) needle"
    then consider "startsWith (c # s) needle" | "includesStr s needle" by auto
    then show "\<exists>pre post. c # s = pre @ needle @ post"
    proof cases
      case 1
      then obtain post where "c # s = [] @ needle @ post" by (auto simp: startsWith_iff)
      then show ?thesis by blast
    next
      case 2
      then obtain pre post where "s = pre @ needle @ post" using Cons.IH by blast
      then have "c # s = (c # pre) @ needle @ post" by simp
      then show ?thesis by blast
    qed
  next
    assume "\<exists>pre post. c # s = pre @ needle @ post"
    then obtain pre post where eq: "c # s = pre @ needle @ post" by blast
    show "includesStr (c # s) needle"
    proof (cases pre)
      case Nil
      then have "startsWith (c # s) needle" using eq by (auto simp: startsWith_iff)
      then show ?thesis by simp
    next
      case (Cons d pre')
      then have "s = pre' @ needle @ post" using eq by simp
      then have "includesStr s needle" using Cons.IH by blast
      then show ?thesis by simp
    qed
  qed
qed

lemma map_eq_append3:
  assumes "map f xs = a @ k @ b"
  shows "\<exists>pre mid post. xs = pre @ mid @ post \<and> map f pre = a \<and> map f mid = k \<and> map f post = b"
proof -
  let ?pre = "take (length a) xs"
  let ?mid = "take (length k) (drop (length a) xs)"
  let ?post = "drop (length k) (drop (length a) xs)"
  have "xs = ?pre @ ?mid @ ?post" by (simp only: append_take_drop_id)
  moreover have "map f ?pre = a"
    by (simp add: take_map [symmetric] assms)
  moreover have "map f ?mid = k"
    by (simp add: take_map [symmetric] drop_map [symmetric] assms)
  moreover have "map f ?post = b"
    by (simp add: drop_map [symmetric] assms)
  ultimately show ?thesis by blast
qed

lemma hasCrisisKeywords_iff:
  "hasCrisisKeywords (toLowerCase text) \<longleftrightarrow>
     (\<exists>keyword \<in> set suicidalKeywords. \<exists>pre mid post.
         text = pre @ mid @ post \<and> toLowerCase mid = toLowerCase keyword)"
proof
  assume "hasCrisisKeywords (toLowerCase text)"
  then obtain keyword where k: "keyword \<in> set suicidalKeywords"
      and "includesStr (toLowerCase text) (toLowerCase keyword)"
    by (auto simp: hasCrisisKeywords_def list_ex_iff)
  then obtain a b where ab: "map toLowerChar text = a @ toLowerCase keyword @ b"
    by (auto simp: includesStr_iff toLowerCase_def)
  then obtain pre mid post where p: "text = pre @ mid @ post"
      "map toLowerChar mid = toLowerCase keyword"
    using map_eq_append3 [OF ab] by blast
  have "text = pre @ mid @ post \<and> toLowerCase mid = toLowerCase keyword"
    using p by (simp add: toLowerCase_def)
  then show "\<exists>keyword \<in> set suicidalKeywords. \<exists>pre mid post.
         text = pre @ mid @ post \<and> toLowerCase mid = toLowerCase keyword"
    using k by blast
next
  assume "\<exists>keyword \<in> set suicidalKeywords. \<exists>pre mid post.
         text = pre @ mid @ post \<and> toLowerCase mid = toLowerCase keyword"
  then obtain keyword pre mid post where k: "keyword \<in> set suicidalKeywords"
      and t: "text = pre @ mid @ post" and m: "toLowerCase mid = toLowerCase keyword"
    by blast
  have "toLowerCase text = toLowerCase pre @ toLowerCase keyword @ toLowerCase post"
    using t m by (simp add: toLowerCase_def)
  then have "includesStr (toLowerCase text) (toLowerCase keyword)"
    unfolding includesStr_iff by blast
  then show "hasCrisisKeywords (toLowerCase text)"
    using k by (auto simp: hasCrisisKeywords_def list_ex_iff)
qed


text \<open>Claim C1. If the text contains a keyword of the crisis list anywhere, in any
  letter case (some part \<open>mid\<close> of the text equals the keyword once both are put in lower
  case), the result is the mood suicidal (the crisis mood) with confidence 0.9 and the
  crisis flag set, whatever else the text holds: the scores of the other categories
  play no part in the result.\<close>

theorem crisis_keyword_first:
  assumes "keyword \<in> set suicidalKeywords"
    and "text = pre @ mid @ post"
    and "toLowerCase mid = toLowerCase keyword"
  shows "analyzeSentiment text = \<lparr>mood = suicidal, confidence = 9 / 10, isCrisis = True\<rparr>"
proof -
  have "hasCrisisKeywords (toLowerCase text)"
    unfolding hasCrisisKeywords_iff using assms by blast
  then show ?thesis by (simp add: analyzeSentiment_def Let_def)
qed



theorem crisis_keyword_first_witness:
  "''no point'' \<in> set suicidalKeywords \<and>
   ''So happy, yet NO Point'' = ''So happy, yet '' @ ''NO Point'' @ [] \<and>
   toLowerCase ''NO Point'' = toLowerCase ''no point'' \<and>
   analyzeSentiment ''So happy, yet NO Point'' =
     \<lparr>mood = suicidal, confidence = 9 / 10, isCrisis = True\<rparr>"
proof -
  have 1: "''no point'' \<in> set suicidalKeywords" by (simp add: suicidalKeywords_def)
  have 2: "''So happy, yet NO Point'' = ''So happy, yet '' @ ''NO Point'' @ []" by simp
  have 3: "toLowerCase ''NO Point'' = toLowerCase ''no point''" by code_simp
  show ?thesis using crisis_keyword_first [OF 1 2 3] 1 2 3 by blast
qed

subsection \<open>The scores of the three categories\<close>

lemma addScore_0: "addScore m 0 moodScores = moodScores"
  by (induction moodScores) (auto simp: addScore_def)

lemma addScore_add: "addScore m a (addScore m b moodScores) = addScore m (b + a) moodScores"
  by (induction moodScores) (auto simp: addScore_def)

lemma addMatches_eq:
  "addMatches lowerText m keyword moodScores =
     addScore m (length (matchFrom keyword lowerText 0)) moodScores"
  by (cases "matchFrom keyword lowerText 0")
     (simp_all add: addMatches_def matchGlobal_def addScore_0)

lemma fold_addMatches:
  "fold (addMatches lowerText m) ks moodScores =
     addScore m (keywordMatches ks lowerText) moodScores"
  by (induction ks arbitrary: moodScores)
     (simp_all add: keywordMatches_def addMatches_eq addScore_0 addScore_add)

lemma countKeywordMatches_eq:
  "countKeywordMatches lowerText =
     [(happy, keywordMatches happyKeywords lowerText),
      (sad, keywordMatches sadKeywords lowerText),
      (anxious, keywordMatches anxiousKeywords lowerText),
      (suicidal, 0), (neutral, 0)]"
  by (simp add: countKeywordMatches_def moodKeywords_def fold_addMatches addScore_def
      initialScores_def)

lemma maxOf_scores: "maxOf [h, s, a, 0, 0] = max h (max s a)"
  by (simp add: maxOf_def max_def)

text \<open>The result on the scoring path, in closed form.\<close>

lemma analyzeSentiment_scored:
  assumes "\<not> hasCrisisKeywords (toLowerCase text)"
  shows "analyzeSentiment text =
     (let h = keywordMatches happyKeywords (toLowerCase text);
          s = keywordMatches sadKeywords (toLowerCase text);
          a = keywordMatches anxiousKeywords (toLowerCase text);
          maxScore = max h (max s a)
      in if maxScore = 0 then \<lparr>mood = neutral, confidence = 1 / 2, isCrisis = False\<rparr>
         else \<lparr>mood = (if h = maxScore then happy else if s = maxScore then sad else anxious),
               confidence = min (real maxScore / real (length (splitWhiteSpace (toLowerCase text))) * 10) 1,
               isCrisis = False\<rparr>)"
  using assms
  by (simp add: analyzeSentiment_def countKeywordMatches_eq maxOf_scores Let_def)

lemma splitFrom_not_Nil: "splitFrom piece s \<noteq> []"
  by (induction piece s rule: splitFrom.induct) auto

text \<open>The pieces hold no white space, and those of a text that neither starts nor ends
  with white space are its words, none of them empty. White space at the start or at
  the end of the text adds an empty piece there.\<close>

lemma splitFrom_no_white:
  "w \<in> set (splitFrom piece s) \<Longrightarrow> list_all (\<lambda>c. \<not> isWhiteSpace c) piece \<Longrightarrow>
     list_all (\<lambda>c. \<not> isWhiteSpace c) w"
  by (induction piece s rule: splitFrom.induct) (auto split: if_splits)

lemma splitFrom_words:
  assumes "s = [] \<or> \<not> isWhiteSpace (last s)"
    and "piece \<noteq> [] \<or> (s \<noteq> [] \<and> \<not> isWhiteSpace (hd s))"
  shows "[] \<notin> set (splitFrom piece s)"
  using assms
proof (induction piece s rule: splitFrom.induct)
  case (1 piece)
  then show ?case by simp
next
  case (2 piece c s)
  show ?case
  proof (cases "isWhiteSpace c")
    case True
    then have piece: "piece \<noteq> []" using "2.prems"(2) by simp
    have s: "s \<noteq> []" "\<not> isWhiteSpace (last s)"
      using "2.prems"(1) True by (auto split: if_splits)
    then have "\<exists>x \<in> set s. \<not> isWhiteSpace x" using last_in_set by blast
    then have d: "dropWhile isWhiteSpace s \<noteq> []" by (simp add: dropWhile_eq_Nil_conv)
    have "last (takeWhile isWhiteSpace s @ dropWhile isWhiteSpace s) =
        last (dropWhile isWhiteSpace s)"
      using d by (rule last_appendR)
    then have l: "last (dropWhile isWhiteSpace s) = last s"
      by (simp only: takeWhile_dropWhile_id)
    have h: "\<not> isWhiteSpace (hd (dropWhile isWhiteSpace s))" using d by (rule hd_dropWhile)
    have "[] \<notin> set (splitFrom [] (dropWhile isWhiteSpace s))"
    proof (rule "2.IH"(1) [OF True])
      show "dropWhile isWhiteSpace s = [] \<or> \<not> isWhiteSpace (last (dropWhile isWhiteSpace s))"
        using s(2) unfolding l by (rule disjI2)
      show "[] \<noteq> [] \<or> dropWhile isWhiteSpace s \<noteq> [] \<and>
          \<not> isWhiteSpace (hd (dropWhile isWhiteSpace s))"
        using d h by blast
    qed
    then show ?thesis using True piece by simp
  next
    case False
    have "s = [] \<or> \<not> isWhiteSpace (last s)" using "2.prems"(1) by (auto split: if_splits)
    then have "[] \<notin> set (splitFrom (piece @ [c]) s)"
      by (rule "2.IH"(2) [OF False]) simp
    then show ?thesis using False by simp
  qed
qed

lemma splitWhiteSpace_words:
  assumes "s \<noteq> []" "\<not> isWhiteSpace (hd s)" "\<not> isWhiteSpace (last s)"
  shows "list_all (\<lambda>w. w \<noteq> [] \<and> list_all (\<lambda>c. \<not> isWhiteSpace c) w) (splitWhiteSpace s)"
proof -
  have "[] \<notin> set (splitFrom [] s)"
    using assms by (intro splitFrom_words) simp_all
  moreover have "list_all (\<lambda>c. \<not> isWhiteSpace c) w" if "w \<in> set (splitFrom [] s)" for w
    using that by (rule splitFrom_no_white) simp
  ultimately show ?thesis unfolding splitWhiteSpace_def list_all_iff by blast
qed

lemma splitWhiteSpace_examples:
  "splitWhiteSpace ''so  glad'' = [''so'', ''glad'']"
  "splitWhiteSpace '' glad '' = [[], ''glad'', []]"
  "splitWhiteSpace [] = [[]]"
  by code_simp+


text \<open>The pieces against the tokens: the split gives one piece for every token, one more
  when the text is empty or starts with white space, and one more when it ends with
  white space.\<close>

lemma tokensFrom_dropWhile: "tokensFrom [] (dropWhile isWhiteSpace s) = tokensFrom [] s"
  by (induction s) simp_all

lemma splitFrom_tokensFrom:
  "length (splitFrom piece s) =
     length (tokensFrom piece s) +
     (if piece = [] \<and> (s = [] \<or> isWhiteSpace (hd s)) then 1 else 0) +
     (if s \<noteq> [] \<and> isWhiteSpace (last s) then 1 else 0)"
proof (induction piece s rule: splitFrom.induct)
  case (1 piece)
  show ?case by simp
next
  case (2 piece c s)
  show ?case
  proof (cases "isWhiteSpace c")
    case True
    let ?r = "dropWhile isWhiteSpace s"
    have IH: "length (splitFrom [] ?r) =
        length (tokensFrom [] ?r) +
        (if ?r = [] \<or> isWhiteSpace (hd ?r) then 1 else 0) +
        (if ?r \<noteq> [] \<and> isWhiteSpace (last ?r) then 1 else 0)"
      using "2.IH"(1) [OF True] by simp
    have edge: "(if ?r = [] \<or> isWhiteSpace (hd ?r) then 1 else 0) +
        (if ?r \<noteq> [] \<and> isWhiteSpace (last ?r) then 1 else 0) =
        (if isWhiteSpace (last (c # s)) then 1 else (0::nat))"
    proof (cases "?r = []")
      case True
      then have "\<forall>x \<in> set s. isWhiteSpace x" by (simp add: dropWhile_eq_Nil_conv)
      then have "isWhiteSpace (last (c # s))" using \<open>isWhiteSpace c\<close> by simp
      then show ?thesis using True by simp
    next
      case False
      then have h: "\<not> isWhiteSpace (hd ?r)" by (rule hd_dropWhile)
      have "last (takeWhile isWhiteSpace s @ ?r) = last ?r"
        using False by (rule last_appendR)
      then have l: "last ?r = last s" by (simp only: takeWhile_dropWhile_id)
      have "s \<noteq> []" using False by auto
      then show ?thesis using False h l by simp
    qed
    have "length (splitFrom piece (c # s)) = Suc (length (splitFrom [] ?r))"
      using True by simp
    also have "\<dots> = Suc (length (tokensFrom [] s)) +
        (if isWhiteSpace (last (c # s)) then 1 else 0)"
      using IH edge by (simp add: tokensFrom_dropWhile)
    finally show ?thesis using True by simp
  next
    case False
    have "length (splitFrom (piece @ [c]) s) =
        length (tokensFrom (piece @ [c]) s) +
        (if s \<noteq> [] \<and> isWhiteSpace (last s) then 1 else 0)"
      using "2.IH"(2) [OF False] by simp
    then show ?thesis using False by simp
  qed
qed

lemma split_pieces_tokens:
  "length (splitWhiteSpace s) =
     length (whitespaceTokens s) +
     (if s = [] \<or> isWhiteSpace (hd s) then 1 else 0) +
     (if s \<noteq> [] \<and> isWhiteSpace (last s) then 1 else 0)"
  using splitFrom_tokensFrom [of "[]" s] by (simp add: splitWhiteSpace_def whitespaceTokens_def)

lemma of_char_int_range: "0 \<le> (of_char c :: int) \<and> (of_char c :: int) < 256"
proof -
  have "(of_char c :: int) = int (of_char c)" by (simp only: of_nat_of_char)
  then show ?thesis using nat_of_char_less_256 [of c] by simp
qed

lemma of_char_canonicalize:
  "(of_char (canonicalize c) :: int) =
     (if (97 \<le> (of_char c :: int) \<and> (of_char c :: int) \<le> 122) \<or>
         (224 \<le> (of_char c :: int) \<and> (of_char c :: int) \<le> 254 \<and> (of_char c :: int) \<noteq> 247)
      then of_char c - 32 else of_char c)"
proof (cases "(97 \<le> (of_char c :: int) \<and> (of_char c :: int) \<le> 122) \<or>
         (224 \<le> (of_char c :: int) \<and> (of_char c :: int) \<le> 254 \<and> (of_char c :: int) \<noteq> 247)")
  case True
  then have "0 \<le> (of_char c :: int) - 32" "(of_char c :: int) - 32 < 256" by auto
  then have "((of_char c :: int) - 32) mod 256 = of_char c - 32" by simp
  then show ?thesis using True
    by (simp only: canonicalize_def Let_def of_char_of if_True)
next
  case False
  then show ?thesis by (simp only: canonicalize_def Let_def if_False)
qed

lemma word_class_shift:
  fixes n m :: int
  assumes "(97 \<le> n \<and> n \<le> 122) \<or> (224 \<le> n \<and> n \<le> 254 \<and> n \<noteq> 247)"
    and "\<not> ((97 \<le> m \<and> m \<le> 122) \<or> (224 \<le> m \<and> m \<le> 254 \<and> m \<noteq> 247))"
    and "n - 32 = m"
  shows "((48 \<le> n \<and> n \<le> 57) \<or> (65 \<le> n \<and> n \<le> 90) \<or> n = 95 \<or> (97 \<le> n \<and> n \<le> 122)) =
         ((48 \<le> m \<and> m \<le> 57) \<or> (65 \<le> m \<and> m \<le> 90) \<or> m = 95 \<or> (97 \<le> m \<and> m \<le> 122))"
proof (cases "97 \<le> n \<and> n \<le> 122")
  case True
  then have "65 \<le> m \<and> m \<le> 90" using assms(3) by arith
  then show ?thesis using True by simp
next
  case False
  then have n: "224 \<le> n" "n \<le> 254" using assms(1) by auto
  then have "192 \<le> m" using assms(3) by arith
  then show ?thesis using n by simp
qed

lemma word_class_arith:
  fixes n m :: int
  assumes "(if (97 \<le> n \<and> n \<le> 122) \<or> (224 \<le> n \<and> n \<le> 254 \<and> n \<noteq> 247) then n - 32 else n) =
           (if (97 \<le> m \<and> m \<le> 122) \<or> (224 \<le> m \<and> m \<le> 254 \<and> m \<noteq> 247) then m - 32 else m)"
  shows "((48 \<le> n \<and> n \<le> 57) \<or> (65 \<le> n \<and> n \<le> 90) \<or> n = 95 \<or> (97 \<le> n \<and> n \<le> 122)) =
         ((48 \<le> m \<and> m \<le> 57) \<or> (65 \<le> m \<and> m \<le> 90) \<or> m = 95 \<or> (97 \<le> m \<and> m \<le> 122))"
proof -
  let ?L = "\<lambda>k::int. (97 \<le> k \<and> k \<le> 122) \<or> (224 \<le> k \<and> k \<le> 254 \<and> k \<noteq> 247)"
  consider "?L n" "?L m" | "?L n" "\<not> ?L m" | "\<not> ?L n" "?L m" | "\<not> ?L n" "\<not> ?L m"
    by blast
  then show ?thesis
  proof cases
    case 1
    have "n - 32 = m - 32" using assms unfolding if_P [OF 1(1)] if_P [OF 1(2)] .
    moreover have "32 \<le> n" "32 \<le> m" using 1 by auto
    ultimately have "n = m" by arith
    then show ?thesis by simp
  next
    case 2
    have "n - 32 = m" using assms unfolding if_P [OF 2(1)] if_not_P [OF 2(2)] .
    with 2 show ?thesis by (rule word_class_shift)
  next
    case 3
    have "m - 32 = n" using assms unfolding if_not_P [OF 3(1)] if_P [OF 3(2)] by simp
    with 3(2) 3(1) show ?thesis by (rule word_class_shift [symmetric])
  next
    case 4
    have "n = m" using assms unfolding if_not_P [OF 4(1)] if_not_P [OF 4(2)] .
    then show ?thesis by simp
  qed
qed

lemma canonicalize_isWordChar:
  assumes "canonicalize a = canonicalize b"
  shows "isWordChar a = isWordChar b"
proof -
  have "(of_char (canonicalize a) :: int) = of_char (canonicalize b)"
    using assms by simp
  then show ?thesis
    unfolding of_char_canonicalize isWordChar_def Let_def by (rule word_class_arith)
qed

lemma slice_isWordCharAt:
  assumes "i + length keyword \<le> length s"
    and "map canonicalize (take (length keyword) (drop i s)) = map canonicalize keyword"
    and "list_all isWordChar keyword"
    and "j < length keyword"
  shows "isWordCharAt s (i + j)"
proof -
  have "map canonicalize (take (length keyword) (drop i s)) ! j = map canonicalize keyword ! j"
    using assms(2) by simp
  then have "canonicalize (s ! (i + j)) = canonicalize (keyword ! j)"
    using assms(1,4) by simp
  then have "isWordChar (s ! (i + j)) = isWordChar (keyword ! j)"
    by (rule canonicalize_isWordChar)
  moreover have "isWordChar (keyword ! j)"
    using assms(3,4) by (simp add: list_all_length)
  ultimately show ?thesis using assms(1,4) by (simp add: isWordCharAt_def)
qed

lemma matcher_wholeWordAt:
  assumes "keyword \<noteq> []" and "list_all isWordChar keyword"
  shows "matcher keyword s i = wholeWordAt keyword s i"
proof (cases "i + length keyword \<le> length s \<and>
    map canonicalize (take (length keyword) (drop i s)) = map canonicalize keyword")
  case False
  then show ?thesis by (auto simp: matcher_def wholeWordAt_def)
next
  case True
  have k: "0 < length keyword" using assms(1) by simp
  have "isWordCharAt s (i + 0)"
    using True assms(2) k by (intro slice_isWordCharAt [of i keyword s 0]) simp_all
  then have first: "isWordCharAt s i" by simp
  have "isWordCharAt s (i + (length keyword - 1))"
    using True assms(2) k by (intro slice_isWordCharAt [of i keyword s]) simp_all
  then have last: "isWordCharAt s (i + length keyword - 1)" using k by simp
  show ?thesis
    using True first last k by (simp add: matcher_def wholeWordAt_def wordBoundary_def)
qed

lemma no_wholeWord_inside:
  assumes "list_all isWordChar keyword"
    and "wholeWordAt keyword s i"
    and "i < j" and "j < i + length keyword"
  shows "\<not> wholeWordAt keyword' s j"
proof -
  have "isWordCharAt s (i + (j - 1 - i))"
    using assms by (intro slice_isWordCharAt [of i keyword s]) (simp_all add: wholeWordAt_def)
  then have "isWordCharAt s (j - 1)" using assms(3) by simp
  then show ?thesis using assms(3) by (simp add: wholeWordAt_def)
qed

lemma matchFrom_count:
  assumes "keyword \<noteq> []" and "list_all isWordChar keyword"
  shows "length (matchFrom keyword s i) =
         length (filter (wholeWordAt keyword s) [i..<Suc (length s)])"
  using assms
proof (induction keyword s i rule: matchFrom.induct)
  case (1 keyword s i)
  note eq = matcher_wholeWordAt [OF "1.prems", of s]
  show ?case
  proof (cases "length s < i")
    case True
    then show ?thesis by (subst matchFrom.simps) simp
  next
    case inside: False
    show ?thesis
    proof (cases "matcher keyword s i")
      case True
      let ?k = "length keyword"
      have w: "wholeWordAt keyword s i" using True eq by simp
      then have le: "i + ?k \<le> length s" by (simp add: wholeWordAt_def)
      have k: "0 < ?k" using "1.prems"(1) by simp
      have "[i..<Suc (length s)] = [i..<i + ?k] @ [i + ?k..<Suc (length s)]"
        using le upt_add_eq_append [of i "i + ?k" "Suc (length s) - (i + ?k)"]
        by (simp del: upt_Suc)
      also have "[i..<i + ?k] = i # [Suc i..<i + ?k]"
        using k by (simp add: upt_conv_Cons del: upt_Suc)
      finally have split: "[i..<Suc (length s)] =
          i # [Suc i..<i + ?k] @ [i + ?k..<Suc (length s)]" by (simp del: upt_Suc)
      have none: "filter (wholeWordAt keyword s) [Suc i..<i + ?k] = []"
        using no_wholeWord_inside [OF "1.prems"(2) w] by (auto simp: filter_empty_conv)
      have "length (matchFrom keyword s i) = Suc (length (matchFrom keyword s (i + ?k)))"
        using inside True "1.prems"(1) by (subst matchFrom.simps) simp
      also have "length (matchFrom keyword s (i + ?k)) =
          length (filter (wholeWordAt keyword s) [i + ?k..<Suc (length s)])"
        using "1.IH"(1) [OF inside True] "1.prems" by (simp del: upt_Suc)
      finally have "length (matchFrom keyword s i) =
          Suc (length (filter (wholeWordAt keyword s) [i + ?k..<Suc (length s)]))" .
      moreover have "filter (wholeWordAt keyword s) [i..<Suc (length s)] =
          i # filter (wholeWordAt keyword s) [i + ?k..<Suc (length s)]"
        unfolding split using w none by (simp del: upt_Suc)
      ultimately show ?thesis by (simp del: upt_Suc)
    next
      case False
      then have w: "\<not> wholeWordAt keyword s i" using eq by simp
      have "[i..<Suc (length s)] = i # [Suc i..<Suc (length s)]"
        using inside by (simp add: upt_conv_Cons del: upt_Suc)
      moreover have "length (matchFrom keyword s i) = length (matchFrom keyword s (Suc i))"
        using inside False by (subst matchFrom.simps) simp
      moreover have "length (matchFrom keyword s (Suc i)) =
          length (filter (wholeWordAt keyword s) [Suc i..<Suc (length s)])"
        using "1.IH"(2) [OF inside False] "1.prems" by (simp del: upt_Suc)
      ultimately show ?thesis using w by (simp del: upt_Suc)
    qed
  qed
qed

lemma keywordMatches_categorySum:
  assumes "list_all (\<lambda>keyword. keyword \<noteq> [] \<and> list_all isWordChar keyword) ks"
  shows "keywordMatches ks s = categorySum ks s"
proof -
  have "length (matchFrom keyword s 0) = wholeWordCount keyword s" if "keyword \<in> set ks" for keyword
    using that assms matchFrom_count [of keyword s 0]
    by (simp add: wholeWordCount_def list_all_iff del: upt_Suc)
  then show ?thesis
    by (simp add: keywordMatches_def categorySum_def cong: map_cong)
qed

lemma scored_keywords_are_words:
  "list_all (\<lambda>keyword. keyword \<noteq> [] \<and> list_all isWordChar keyword) happyKeywords"
  "list_all (\<lambda>keyword. keyword \<noteq> [] \<and> list_all isWordChar keyword) sadKeywords"
  "list_all (\<lambda>keyword. keyword \<noteq> [] \<and> list_all isWordChar keyword) anxiousKeywords"
  by (simp_all add: happyKeywords_def sadKeywords_def anxiousKeywords_def isWordChar_def)

subsection \<open>The result of \<^verbatim>\<open>analyzeSentiment\<close>\<close>

text \<open>For the keywords of the three scored categories the matches of the regular
  expression are the whole-word occurrences, so the result on the scoring path is a
  function of the three sums of whole-word counts.\<close>

lemma analyzeSentiment_by_sums:
  assumes "\<not> hasCrisisKeywords (toLowerCase text)"
  shows "analyzeSentiment text =
     (let h = categorySum happyKeywords (toLowerCase text);
          s = categorySum sadKeywords (toLowerCase text);
          a = categorySum anxiousKeywords (toLowerCase text);
          maxScore = max h (max s a)
      in if maxScore = 0 then \<lparr>mood = neutral, confidence = 1 / 2, isCrisis = False\<rparr>
         else \<lparr>mood = (if h = maxScore then happy else if s = maxScore then sad else anxious),
               confidence = min (real maxScore / real (length (splitWhiteSpace (toLowerCase text))) * 10) 1,
               isCrisis = False\<rparr>)"
  using analyzeSentiment_scored [OF assms]
  by (simp only: keywordMatches_categorySum [OF scored_keywords_are_words(1)]
      keywordMatches_categorySum [OF scored_keywords_are_words(2)]
      keywordMatches_categorySum [OF scored_keywords_are_words(3)])

text \<open>Evaluations of the crisis check, the three sums and the number of pieces on
  sample texts.\<close>

lemma eval_joy:
  "\<not> hasCrisisKeywords (toLowerCase ''Joy'')"
  "categorySum happyKeywords (toLowerCase ''Joy'') = 1"
  "categorySum sadKeywords (toLowerCase ''Joy'') = 0"
  "categorySum anxiousKeywords (toLowerCase ''Joy'') = 0"
  by code_simp+

lemma eval_hm:
  "\<not> hasCrisisKeywords (toLowerCase ''hm'')"
  "categorySum happyKeywords (toLowerCase ''hm'') = 0"
  "categorySum sadKeywords (toLowerCase ''hm'') = 0"
  "categorySum anxiousKeywords (toLowerCase ''hm'') = 0"
  by code_simp+

lemma eval_sad_joy:
  "\<not> hasCrisisKeywords (toLowerCase ''sad joy'')"
  "categorySum happyKeywords (toLowerCase ''sad joy'') = 1"
  "categorySum sadKeywords (toLowerCase ''sad joy'') = 1"
  "categorySum anxiousKeywords (toLowerCase ''sad joy'') = 0"
  by code_simp+

lemma eval_twelve:
  "\<not> hasCrisisKeywords (toLowerCase '' joy a b c d e f g h i j'')"
  "categorySum happyKeywords (toLowerCase '' joy a b c d e f g h i j'') = 1"
  "categorySum sadKeywords (toLowerCase '' joy a b c d e f g h i j'') = 0"
  "categorySum anxiousKeywords (toLowerCase '' joy a b c d e f g h i j'') = 0"
  "length (splitWhiteSpace (toLowerCase '' joy a b c d e f g h i j'')) = 12"
  "length (whitespaceTokens (toLowerCase '' joy a b c d e f g h i j'')) = 11"
  by code_simp+

text \<open>Claim C6. For a text without crisis keyword, let \<open>h\<close>, \<open>s\<close> and \<open>a\<close> be the sums,
  over the keywords of the categories happy, sad and anxious, of the numbers of
  whole-word occurrences (up to letter case) in the text put in lower case. If the
  three sums are zero the result is neutral with confidence 0.5 and no crisis flag;
  otherwise the mood returned is one of the three categories and its sum is the
  largest.\<close>

theorem category_sums_decide:
  assumes "\<not> hasCrisisKeywords (toLowerCase text)"
  shows "let h = categorySum happyKeywords (toLowerCase text);
             s = categorySum sadKeywords (toLowerCase text);
             a = categorySum anxiousKeywords (toLowerCase text)
         in (h = 0 \<and> s = 0 \<and> a = 0 \<longrightarrow>
               analyzeSentiment text = \<lparr>mood = neutral, confidence = 1 / 2, isCrisis = False\<rparr>) \<and>
            (\<not> (h = 0 \<and> s = 0 \<and> a = 0) \<longrightarrow>
               (mood (analyzeSentiment text) = happy \<and> h = max h (max s a)) \<or>
               (mood (analyzeSentiment text) = sad \<and> s = max h (max s a)) \<or>
               (mood (analyzeSentiment text) = anxious \<and> a = max h (max s a)))"
  unfolding analyzeSentiment_by_sums [OF assms] Let_def
  by (auto simp: max_def)

theorem category_sums_decide_witness:
  "(\<not> hasCrisisKeywords (toLowerCase ''Joy'') \<and>
    \<not> (categorySum happyKeywords (toLowerCase ''Joy'') = 0 \<and>
       categorySum sadKeywords (toLowerCase ''Joy'') = 0 \<and>
       categorySum anxiousKeywords (toLowerCase ''Joy'') = 0) \<and>
    mood (analyzeSentiment ''Joy'') = happy) \<and>
   (\<not> hasCrisisKeywords (toLowerCase ''hm'') \<and>
    categorySum happyKeywords (toLowerCase ''hm'') = 0 \<and>
    categorySum sadKeywords (toLowerCase ''hm'') = 0 \<and>
    categorySum anxiousKeywords (toLowerCase ''hm'') = 0 \<and>
    analyzeSentiment ''hm'' = \<lparr>mood = neutral, confidence = 1 / 2, isCrisis = False\<rparr>)"
  using category_sums_decide [OF eval_joy(1)] category_sums_decide [OF eval_hm(1)]
  by (simp add: eval_joy eval_hm Let_def)

text \<open>Claim C10. On the scoring path, when the largest sum is not zero the mood is the
  first category, in the order happy, sad, anxious, whose sum is the largest: happy
  when its sum is the largest, else sad when its sum is, else anxious. So a tie goes to
  the earlier category, is never answered with neutral, and the mood depends on the
  text through the three sums only.\<close>

theorem tie_break_order:
  assumes "\<not> hasCrisisKeywords (toLowerCase text)"
  shows "let h = categorySum happyKeywords (toLowerCase text);
             s = categorySum sadKeywords (toLowerCase text);
             a = categorySum anxiousKeywords (toLowerCase text);
             maxScore = max h (max s a)
         in maxScore \<noteq> 0 \<longrightarrow>
              (h = maxScore \<longrightarrow> mood (analyzeSentiment text) = happy) \<and>
              (h \<noteq> maxScore \<and> s = maxScore \<longrightarrow> mood (analyzeSentiment text) = sad) \<and>
              (h \<noteq> maxScore \<and> s \<noteq> maxScore \<longrightarrow>
                 a = maxScore \<and> mood (analyzeSentiment text) = anxious)"
  unfolding analyzeSentiment_by_sums [OF assms] Let_def
  by (auto simp: max_def)

theorem tie_break_order_witness:
  "\<not> hasCrisisKeywords (toLowerCase ''sad joy'') \<and>
   categorySum happyKeywords (toLowerCase ''sad joy'') = 1 \<and>
   categorySum sadKeywords (toLowerCase ''sad joy'') = 1 \<and>
   categorySum anxiousKeywords (toLowerCase ''sad joy'') = 0 \<and>
   mood (analyzeSentiment ''sad joy'') = happy"
  using tie_break_order [OF eval_sad_joy(1)]
  by (simp add: eval_sad_joy Let_def)

text \<open>Claim C5. The crisis flag of the result is set exactly when its mood is suicidal
  (the crisis mood), and the mood is suicidal exactly when the crisis check finds a
  keyword: the scoring path never returns it.\<close>

theorem crisis_flag_iff_mood:
  "(isCrisis (analyzeSentiment text) \<longleftrightarrow> mood (analyzeSentiment text) = suicidal) \<and>
   (mood (analyzeSentiment text) = suicidal \<longleftrightarrow> hasCrisisKeywords (toLowerCase text))"
proof (cases "hasCrisisKeywords (toLowerCase text)")
  case True
  then show ?thesis by (simp add: analyzeSentiment_def Let_def)
next
  case False
  show ?thesis
    unfolding analyzeSentiment_by_sums [OF False] Let_def using False by simp
qed

theorem crisis_flag_iff_mood_witness:
  "(\<not> hasCrisisKeywords (toLowerCase ''Joy'') \<and> \<not> isCrisis (analyzeSentiment ''Joy'') \<and>
    mood (analyzeSentiment ''Joy'') \<noteq> suicidal) \<and>
   (hasCrisisKeywords (toLowerCase ''Give UP'') \<and> isCrisis (analyzeSentiment ''Give UP'') \<and>
    mood (analyzeSentiment ''Give UP'') = suicidal)"
proof -
  have "hasCrisisKeywords (toLowerCase ''Give UP'')" by code_simp
  then show ?thesis
    using crisis_flag_iff_mood [of "''Joy''"] crisis_flag_iff_mood [of "''Give UP''"] eval_joy(1)
    by simp
qed

text \<open>Claim C7, as the specification states it, takes the word count to be the number
  of white-space-delimited tokens of the text in lower case. The code divides by the
  number of pieces of \<^verbatim>\<open>split(/\s+/)\<close>, which has an empty piece more where the text
  starts or ends with white space. The text \<^verbatim>\<open>" joy a b c d e f g h i j"\<close> has 11
  tokens, one of them a keyword, so the claim gives the confidence 10/11; the code
  returns 10/12.\<close>

theorem confidence_counts_empty_pieces:
  "\<not> hasCrisisKeywords (toLowerCase '' joy a b c d e f g h i j'') \<and>
   max (categorySum happyKeywords (toLowerCase '' joy a b c d e f g h i j''))
     (max (categorySum sadKeywords (toLowerCase '' joy a b c d e f g h i j''))
          (categorySum anxiousKeywords (toLowerCase '' joy a b c d e f g h i j''))) = 1 \<and>
   length (whitespaceTokens (toLowerCase '' joy a b c d e f g h i j'')) = 11 \<and>
   confidence (analyzeSentiment '' joy a b c d e f g h i j'') = 5 / 6 \<and>
   confidence (analyzeSentiment '' joy a b c d e f g h i j'') \<noteq>
     min (real (max (categorySum happyKeywords (toLowerCase '' joy a b c d e f g h i j''))
                 (max (categorySum sadKeywords (toLowerCase '' joy a b c d e f g h i j''))
                      (categorySum anxiousKeywords (toLowerCase '' joy a b c d e f g h i j'')))) /
          real (length (whitespaceTokens (toLowerCase '' joy a b c d e f g h i j''))) * 10) 1"
  using analyzeSentiment_by_sums [OF eval_twelve(1)]
  by (simp add: eval_twelve Let_def)

text \<open>Claim C7, amended. The confidence of every result lies between 0 and 1. The word
  count is the number of pieces into which \<^verbatim>\<open>split(/\s+/)\<close> cuts the text in lower case:
  the number of its white-space-delimited tokens, one more when the text is empty or
  starts with white space, and one more when it ends with white space. It is never
  zero; and on the scoring path with a winning category the confidence is the smaller
  of 1 and the winning sum divided by the word count, times 10.\<close>

theorem confidence_bounds:
  "0 \<le> confidence (analyzeSentiment text) \<and> confidence (analyzeSentiment text) \<le> 1 \<and>
   0 < length (splitWhiteSpace (toLowerCase text)) \<and>
   length (splitWhiteSpace (toLowerCase text)) =
     length (whitespaceTokens (toLowerCase text)) +
     (if toLowerCase text = [] \<or> isWhiteSpace (hd (toLowerCase text)) then 1 else 0) +
     (if toLowerCase text \<noteq> [] \<and> isWhiteSpace (last (toLowerCase text)) then 1 else 0) \<and>
   (\<not> hasCrisisKeywords (toLowerCase text) \<longrightarrow>
      (let h = categorySum happyKeywords (toLowerCase text);
           s = categorySum sadKeywords (toLowerCase text);
           a = categorySum anxiousKeywords (toLowerCase text);
           maxScore = max h (max s a);
           wordCount = length (splitWhiteSpace (toLowerCase text))
       in maxScore \<noteq> 0 \<longrightarrow>
            confidence (analyzeSentiment text) = min (real maxScore / real wordCount * 10) 1))"
proof -
  have pieces: "0 < length (splitWhiteSpace (toLowerCase text))"
    by (simp add: splitWhiteSpace_def splitFrom_not_Nil)
  have range_and_value:
    "0 \<le> confidence (analyzeSentiment text) \<and> confidence (analyzeSentiment text) \<le> 1 \<and>
     (\<not> hasCrisisKeywords (toLowerCase text) \<longrightarrow>
      (let h = categorySum happyKeywords (toLowerCase text);
           s = categorySum sadKeywords (toLowerCase text);
           a = categorySum anxiousKeywords (toLowerCase text);
           maxScore = max h (max s a);
           wordCount = length (splitWhiteSpace (toLowerCase text))
       in maxScore \<noteq> 0 \<longrightarrow>
            confidence (analyzeSentiment text) = min (real maxScore / real wordCount * 10) 1))"
  proof (cases "hasCrisisKeywords (toLowerCase text)")
    case True
    then show ?thesis by (simp add: analyzeSentiment_def Let_def)
  next
    case False
    show ?thesis
      unfolding analyzeSentiment_by_sums [OF False] Let_def using False by simp
  qed
  show ?thesis
    using pieces range_and_value split_pieces_tokens [of "toLowerCase text"] by blast
qed

theorem confidence_bounds_witness:
  "\<not> hasCrisisKeywords (toLowerCase '' joy a b c d e f g h i j'') \<and>
   max (categorySum happyKeywords (toLowerCase '' joy a b c d e f g h i j''))
     (max (categorySum sadKeywords (toLowerCase '' joy a b c d e f g h i j''))
          (categorySum anxiousKeywords (toLowerCase '' joy a b c d e f g h i j''))) \<noteq> 0 \<and>
   length (whitespaceTokens (toLowerCase '' joy a b c d e f g h i j'')) = 11 \<and>
   length (splitWhiteSpace (toLowerCase '' joy a b c d e f g h i j'')) = 12 \<and>
   confidence (analyzeSentiment '' joy a b c d e f g h i j'') = 5 / 6"
  using confidence_bounds [of "'' joy a b c d e f g h i j''"]
  by (simp add: eval_twelve Let_def)

subsection \<open>The guard on the entry text\<close>

text \<open>Claim C2, as the specification states it, asks \<^verbatim>\<open>analyzeSentiment\<close> to fail on the
  empty text. It does not: the empty text is classified as neutral.\<close>

theorem analyzeSentiment_empty_text:
  "analyzeSentiment [] = \<lparr>mood = neutral, confidence = 1 / 2, isCrisis = False\<rparr>"
  by code_simp

text \<open>Claim C2, amended. \<^verbatim>\<open>analyzeSentiment\<close> has no failure: it returns a result for
  every string, and for the empty one the neutral result. The check is made by the
  handler before the classifier is called: an entry text that is the empty string or
  not a string is answered with the failure \<^verbatim>\<open>Entry text is required\<close>, and for every
  other entry text, a string that is not empty, the handler gets the result of
  \<^verbatim>\<open>analyzeSentiment\<close> on it.\<close>

theorem entry_text_guard:
  "analyzeSentiment [] = \<lparr>mood = neutral, confidence = 1 / 2, isCrisis = False\<rparr> \<and>
   (sentimentResult entryText = Inl EntryTextRequired \<longleftrightarrow>
      entryText = NotAString \<or> entryText = JString []) \<and>
   (entryText \<noteq> NotAString \<and> entryText \<noteq> JString [] \<longrightarrow>
      (\<exists>s. s \<noteq> [] \<and> entryText = JString s \<and>
           sentimentResult entryText = Inr (analyzeSentiment s)))"
proof -
  have "analyzeSentiment [] = \<lparr>mood = neutral, confidence = 1 / 2, isCrisis = False\<rparr>"
    by code_simp
  moreover have "sentimentResult entryText = Inl EntryTextRequired \<longleftrightarrow>
      entryText = NotAString \<or> entryText = JString []"
    by (cases entryText) (auto simp: sentimentResult_def)
  moreover have "\<exists>s. s \<noteq> [] \<and> entryText = JString s \<and>
      sentimentResult entryText = Inr (analyzeSentiment s)"
    if "entryText \<noteq> NotAString" "entryText \<noteq> JString []"
    using that by (cases entryText) (auto simp: sentimentResult_def)
  ultimately show ?thesis by blast
qed

theorem entry_text_guard_witness:
  "JString ''Joy'' \<noteq> NotAString \<and> JString ''Joy'' \<noteq> JString [] \<and>
   sentimentResult (JString ''Joy'') = Inr (analyzeSentiment ''Joy'') \<and>
   sentimentResult (JString []) = Inl EntryTextRequired \<and>
   sentimentResult NotAString = Inl EntryTextRequired"
  using entry_text_guard [of "JString ''Joy''"] entry_text_guard [of "JString []"]
    entry_text_guard [of NotAString]
  by simp

subsection \<open>The quote tag and the choice of a quote\<close>

lemma MoodType_UNIV: "(UNIV :: MoodType set) = {happy, sad, anxious, suicidal, neutral}"
  using MoodType.exhaust by auto

text \<open>Claim C8. \<^const>\<open>getMoodQuoteTag\<close> is defined on every mood, sends happy to
  \<^verbatim>\<open>happy\<close>, sad and suicidal (the crisis mood) to \<^verbatim>\<open>sad\<close>, anxious to \<^verbatim>\<open>anxious\<close> and
  neutral to \<^verbatim>\<open>general\<close>, and its values are exactly these four tags.\<close>

theorem getMoodQuoteTag_table:
  "getMoodQuoteTag happy = ''happy'' \<and> getMoodQuoteTag sad = ''sad'' \<and>
   getMoodQuoteTag suicidal = ''sad'' \<and> getMoodQuoteTag anxious = ''anxious'' \<and>
   getMoodQuoteTag neutral = ''general'' \<and>
   range getMoodQuoteTag = {''happy'', ''sad'', ''anxious'', ''general''}"
  by (auto simp: MoodType_UNIV)

lemma randomQuote_index:
  assumes "0 \<le> r" "r < 1" "0 < n"
  shows "0 \<le> \<lfloor>r * real n\<rfloor> \<and> \<lfloor>r * real n\<rfloor> < int n"
proof -
  have "0 \<le> r * real n" using assms by simp
  moreover have "r * real n < real n" using assms by simp
  ultimately show ?thesis by (simp add: floor_less_iff)
qed

text \<open>Claim C9. Whatever the random source returns, no quote is chosen from an empty
  list of candidates (and the stored quote id is \<^verbatim>\<open>null\<close>, no failure); from a list that
  is not empty, with a random value in \<open>[0, 1)\<close> as \<^verbatim>\<open>Math.random\<close> gives, the chosen
  quote is one of the candidates, and its id is the one stored with the entry (an id
  of 0, which the serial column never gives, would be stored as \<^verbatim>\<open>null\<close>).\<close>

theorem randomQuote_member:
  "randomQuote r [] = None \<and> quoteId (randomQuote r []) = None \<and>
   (0 \<le> r \<and> r < 1 \<and> availableQuotes \<noteq> [] \<longrightarrow>
      (\<exists>q \<in> set availableQuotes. randomQuote r availableQuotes = Some q \<and>
         (id' q \<noteq> 0 \<longrightarrow> quoteId (randomQuote r availableQuotes) = Some (id' q))))"
proof -
  have "randomQuote r [] = None" by (simp add: randomQuote_def)
  moreover have "\<exists>q \<in> set availableQuotes. randomQuote r availableQuotes = Some q \<and>
         (id' q \<noteq> 0 \<longrightarrow> quoteId (randomQuote r availableQuotes) = Some (id' q))"
    if "0 \<le> r" "r < 1" "availableQuotes \<noteq> []"
  proof -
    let ?i = "\<lfloor>r * real (length availableQuotes)\<rfloor>"
    have i: "0 \<le> ?i" "?i < int (length availableQuotes)"
      using randomQuote_index [of r "length availableQuotes"] that by simp_all
    then have "nat ?i < length availableQuotes" by linarith
    then have "availableQuotes ! nat ?i \<in> set availableQuotes" by (rule nth_mem)
    moreover have "randomQuote r availableQuotes = Some (availableQuotes ! nat ?i)"
      unfolding randomQuote_def Let_def using i by (simp only: conj_commute if_True simp_thms)
    ultimately show ?thesis by (auto simp: quoteId_def)
  qed
  ultimately show ?thesis by (auto simp: quoteId_def)
qed

theorem randomQuote_member_witness:
  "(0::real) \<le> 1 / 2 \<and> (1 / 2 :: real) < 1 \<and>
   [\<lparr>id' = 1, quoteText = ''a'', author = None, moodTag = ''sad''\<rparr>,
    \<lparr>id' = 2, quoteText = ''b'', author = None, moodTag = ''sad''\<rparr>] \<noteq> [] \<and>
   randomQuote (1 / 2) [\<lparr>id' = 1, quoteText = ''a'', author = None, moodTag = ''sad''\<rparr>,
      \<lparr>id' = 2, quoteText = ''b'', author = None, moodTag = ''sad''\<rparr>] =
     Some \<lparr>id' = 2, quoteText = ''b'', author = None, moodTag = ''sad''\<rparr> \<and>
   quoteId (randomQuote (1 / 2) [\<lparr>id' = 1, quoteText = ''a'', author = None, moodTag = ''sad''\<rparr>,
      \<lparr>id' = 2, quoteText = ''b'', author = None, moodTag = ''sad''\<rparr>]) = Some 2"
proof -
  have "randomQuote (1 / 2) [\<lparr>id' = 1, quoteText = ''a'', author = None, moodTag = ''sad''\<rparr>,
      \<lparr>id' = 2, quoteText = ''b'', author = None, moodTag = ''sad''\<rparr>] =
     Some \<lparr>id' = 2, quoteText = ''b'', author = None, moodTag = ''sad''\<rparr>"
    by (simp add: randomQuote_def)
  then show ?thesis
    using randomQuote_member [of "1 / 2"
      "[\<lparr>id' = 1, quoteText = ''a'', author = None, moodTag = ''sad''\<rparr>,
        \<lparr>id' = 2, quoteText = ''b'', author = None, moodTag = ''sad''\<rparr>]"]
    by simp
qed

subsection \<open>The weekly trend\<close>

text \<open>The moods found under a date key are the moods of the entries with that key, in
  the order of the entries.\<close>

lemma fold_pushMood:
  "fold pushMood entries moodByDate k =
     (let new = map detectedMood (filter (\<lambda>e. entryDateKey e = k) entries)
      in case moodByDate k of
           None \<Rightarrow> if new = [] then None else Some new
         | Some moods \<Rightarrow> Some (moods @ new))"
proof (induction entries arbitrary: moodByDate)
  case Nil
  show ?case by (simp split: option.split)
next
  case (Cons e entries)
  show ?case
    unfolding fold_Cons comp_apply Cons.IH
    by (cases "moodByDate (entryDateKey e)"; cases "moodByDate k")
       (auto simp: pushMood_def Let_def)
qed

lemma dayMoods_eq:
  "(case groupByDate entries k of None \<Rightarrow> [] | Some moods \<Rightarrow> moods) =
     map detectedMood (filter (\<lambda>e. entryDateKey e = k) entries)"
  by (simp add: groupByDate_def fold_pushMood Let_def)

lemma countMood_keys:
  assumes "distinct (map fst moodCounts)"
  shows "distinct (map fst (countMood m moodCounts))"
proof (cases "map_of moodCounts m")
  case None
  then have "m \<notin> fst ` set moodCounts" by (simp add: map_of_eq_None_iff)
  then show ?thesis using assms None by (simp add: countMood_def)
next
  case (Some c)
  have "map fst (map (\<lambda>(k, v). if k = m then (k, c + 1) else (k, v)) moodCounts) = map fst moodCounts"
    by (induction moodCounts) auto
  then show ?thesis using assms Some by (simp only: countMood_def option.case)
qed

lemma countMood_map_of:
  "map_of (countMood m moodCounts) k =
     (if k = m then Some (case map_of moodCounts m of None \<Rightarrow> 1 | Some c \<Rightarrow> c + 1)
      else map_of moodCounts k)"
proof (cases "map_of moodCounts m")
  case None
  then show ?thesis by (auto simp: countMood_def map_add_def split: option.split)
next
  case (Some c)
  have "map_of (map (\<lambda>(k, v). if k = m then (k, c + 1) else (k, v)) xs) k =
        (if k = m then (if map_of xs m = None then None else Some (c + 1)) else map_of xs k)" for xs
    by (induction xs) auto
  then show ?thesis using Some by (simp add: countMood_def)
qed

lemma fold_countMood_keys:
  "distinct (map fst moodCounts) \<Longrightarrow> distinct (map fst (fold countMood dayMoods moodCounts))"
  by (induction dayMoods arbitrary: moodCounts) (simp_all add: countMood_keys)

lemma fold_countMood_map_of:
  "map_of (fold countMood dayMoods moodCounts) k =
     (if count_list dayMoods k = 0 then map_of moodCounts k
      else Some (count_list dayMoods k + (case map_of moodCounts k of None \<Rightarrow> 0 | Some c \<Rightarrow> c)))"
  by (induction dayMoods arbitrary: moodCounts)
     (auto simp: countMood_map_of split: option.split)

lemma moodCounts_set:
  "set (fold countMood dayMoods []) = (\<lambda>m. (m, count_list dayMoods m)) ` set dayMoods"
proof -
  let ?cs = "fold countMood dayMoods []"
  have d: "distinct (map fst ?cs)" by (simp add: fold_countMood_keys)
  have "(m, c) \<in> set ?cs \<longleftrightarrow> m \<in> set dayMoods \<and> c = count_list dayMoods m" for m c
  proof -
    have "(m, c) \<in> set ?cs \<longleftrightarrow> map_of ?cs m = Some c"
      using d by simp
    also have "\<dots> \<longleftrightarrow> m \<in> set dayMoods \<and> c = count_list dayMoods m"
      by (auto simp: fold_countMood_map_of count_list_0_iff)
    finally show ?thesis .
  qed
  then show ?thesis by auto
qed


lemma tied_length:
  "length (filter (\<lambda>(m, c). c = n) (fold countMood dayMoods [])) =
     card {m \<in> set dayMoods. count_list dayMoods m = n}"
proof -
  let ?cs = "fold countMood dayMoods []"
  have "distinct (map fst ?cs)" by (simp add: fold_countMood_keys)
  then have "distinct ?cs" by (rule distinct_map [THEN iffD1, THEN conjunct1])
  then have "distinct (filter (\<lambda>(m, c). c = n) ?cs)" by (rule distinct_filter)
  then have "length (filter (\<lambda>(m, c). c = n) ?cs) = card (set (filter (\<lambda>(m, c). c = n) ?cs))"
    by (rule distinct_card [symmetric])
  also have "set (filter (\<lambda>(m, c). c = n) ?cs) =
      (\<lambda>m. (m, count_list dayMoods m)) ` {m \<in> set dayMoods. count_list dayMoods m = n}"
    by (auto simp: moodCounts_set)
  also have "card \<dots> = card {m \<in> set dayMoods. count_list dayMoods m = n}"
    by (rule card_image) (simp add: inj_on_def)
  finally show ?thesis .
qed

lemma dominantMood_top:
  assumes "dayMoods \<noteq> []"
  obtains top where "top \<in> set dayMoods"
    and "\<forall>m \<in> set dayMoods. count_list dayMoods m \<le> count_list dayMoods top"
    and "dominantMood dayMoods =
      Inr (if 1 < card {m \<in> set dayMoods. count_list dayMoods m = count_list dayMoods top}
           then neutral else top)"
proof -
  let ?cs = "fold countMood dayMoods []"
  let ?key = "\<lambda>(m :: MoodType, c :: nat). - int c"
  let ?sorted = "sort_key ?key ?cs"
  have "set ?cs \<noteq> {}" using assms by (simp add: moodCounts_set)
  then have "?sorted \<noteq> []" by (metis set_sort set_empty)
  then obtain t rest where sorted: "?sorted = t # rest" by (cases ?sorted) auto
  have "t \<in> set ?sorted" using sorted by simp
  then have t: "t \<in> set ?cs" by simp
  then have top: "fst t \<in> set dayMoods" "snd t = count_list dayMoods (fst t)"
    by (auto simp: moodCounts_set)
  have "sorted (map ?key (t # rest))"
    using sorted_sort_key [of ?key ?cs] sorted by simp
  then have "\<forall>x \<in> set (t # rest). ?key t \<le> ?key x" by auto
  then have "\<forall>x \<in> set ?cs. ?key t \<le> ?key x"
    using sorted by (metis set_sort)
  then have max: "\<forall>m \<in> set dayMoods. count_list dayMoods m \<le> snd t"
    by (auto simp: moodCounts_set split: prod.splits)
  have "length (filter (\<lambda>(m, c). c = snd t) ?sorted) = length (filter (\<lambda>(m, c). c = snd t) ?cs)"
    by (simp add: filter_sort)
  then have tied: "length (filter (\<lambda>(m, c). c = snd t) (t # rest)) =
      card {m \<in> set dayMoods. count_list dayMoods m = snd t}"
    using sorted by (simp only: tied_length)
  have "dominantMood dayMoods =
      Inr (if 1 < card {m \<in> set dayMoods. count_list dayMoods m = snd t} then neutral else fst t)"
    using assms sorted tied
    by (simp only: dominantMood_def Let_def length_greater_0_conv if_True list.case)
       simp
  then show thesis using top max that [of "fst t"] by simp
qed

lemma dominantMood_Nil: "dominantMood [] = Inr neutral"
  by (simp add: dominantMood_def)

lemma dominantMood_unique:
  assumes "m \<in> set dayMoods"
    and "\<forall>m' \<in> set dayMoods. m' \<noteq> m \<longrightarrow> count_list dayMoods m' < count_list dayMoods m"
  shows "dominantMood dayMoods = Inr m"
proof -
  have "dayMoods \<noteq> []" using assms(1) by auto
  then obtain top where top: "top \<in> set dayMoods"
      "\<forall>m \<in> set dayMoods. count_list dayMoods m \<le> count_list dayMoods top"
      "dominantMood dayMoods =
        Inr (if 1 < card {m \<in> set dayMoods. count_list dayMoods m = count_list dayMoods top}
             then neutral else top)"
    by (rule dominantMood_top)
  have "top = m"
  proof (rule ccontr)
    assume "top \<noteq> m"
    then have "count_list dayMoods top < count_list dayMoods m" using assms(2) top(1) by blast
    moreover have "count_list dayMoods m \<le> count_list dayMoods top" using top(2) assms(1) by blast
    ultimately show False by simp
  qed
  moreover have "{m' \<in> set dayMoods. count_list dayMoods m' = count_list dayMoods m} = {m}"
    using assms by fastforce
  ultimately show ?thesis using top(3) by simp
qed

lemma dominantMood_tie:
  assumes "m1 \<in> set dayMoods" "m2 \<in> set dayMoods" "m1 \<noteq> m2"
    and "count_list dayMoods m1 = count_list dayMoods m2"
    and "\<forall>m' \<in> set dayMoods. count_list dayMoods m' \<le> count_list dayMoods m1"
  shows "dominantMood dayMoods = Inr neutral"
proof -
  have "dayMoods \<noteq> []" using assms(1) by auto
  then obtain top where top: "top \<in> set dayMoods"
      "\<forall>m \<in> set dayMoods. count_list dayMoods m \<le> count_list dayMoods top"
      "dominantMood dayMoods =
        Inr (if 1 < card {m \<in> set dayMoods. count_list dayMoods m = count_list dayMoods top}
             then neutral else top)"
    by (rule dominantMood_top)
  let ?T = "{m \<in> set dayMoods. count_list dayMoods m = count_list dayMoods top}"
  have "count_list dayMoods top = count_list dayMoods m1"
    using top(1,2) assms(1,5) by (simp add: le_antisym)
  then have "{m1, m2} \<subseteq> ?T" using assms by simp
  moreover have "finite ?T" by simp
  ultimately have "card {m1, m2} \<le> card ?T" by (rule card_mono [rotated])
  then have "1 < card ?T" using assms(3) by simp
  then show ?thesis using top(3) by simp
qed

lemma dominantMood_total: "\<exists>m. dominantMood dayMoods = Inr m"
proof (cases "dayMoods = []")
  case True
  then show ?thesis by (simp add: dominantMood_Nil)
next
  case False
  then show ?thesis by (rule dominantMood_top) blast
qed


lemma weeklyPoint_eq:
  "\<exists>m. dominantMood (map detectedMood
            (filter (\<lambda>e. entryDateKey e = Some (isoDate (setDateBack tz (clock i) i))) entries)) = Inr m \<and>
       weeklyPoint tz clock (groupByDate entries) i =
         Inr \<lparr>wdate = isoDate (setDateBack tz (clock i) i), wmood = m,
              wentries = length (filter
                (\<lambda>e. entryDateKey e = Some (isoDate (setDateBack tz (clock i) i))) entries)\<rparr>"
proof -
  let ?dayMoods = "map detectedMood
      (filter (\<lambda>e. entryDateKey e = Some (isoDate (setDateBack tz (clock i) i))) entries)"
  obtain m where m: "dominantMood ?dayMoods = Inr m"
    using dominantMood_total by blast
  then have "weeklyPoint tz clock (groupByDate entries) i =
      Inr \<lparr>wdate = isoDate (setDateBack tz (clock i) i), wmood = m, wentries = length ?dayMoods\<rparr>"
    by (simp add: weeklyPoint_def dayMoods_eq Let_def)
  then show ?thesis using m by simp
qed

lemma weekLoop_unroll:
  "weekLoop tz clock (groupByDate entries) i acc =
     Inr (acc @
          map (\<lambda>j. projr (weeklyPoint tz clock (groupByDate entries) j)) (rev [0..<Suc i]))"
proof (induction i arbitrary: acc)
  case 0
  obtain p where "weeklyPoint tz clock (groupByDate entries) 0 = Inr p"
    using weeklyPoint_eq [of tz clock 0 entries] by auto
  then show ?case by (subst weekLoop.simps) simp
next
  case (Suc i)
  obtain p where "weeklyPoint tz clock (groupByDate entries) (Suc i) = Inr p"
    using weeklyPoint_eq [of tz clock "Suc i" entries] by auto
  then show ?case by (subst weekLoop.simps) (simp add: Suc.IH)
qed

lemma countdown_from_6: "rev [0..<Suc 6] = [6, 5, 4, 3, 2, 1, 0]"
  by (simp add: eval_nat_numeral)

lemma weeklyData_points:
  "weeklyData tz clock entries =
     Inr (map (\<lambda>j. projr (weeklyPoint tz clock (groupByDate entries) j)) [6, 5, 4, 3, 2, 1, 0])"
  by (simp only: weeklyData_def weekLoop_unroll countdown_from_6 append_Nil)

lemma wdate_weeklyPoint:
  "wdate (projr (weeklyPoint tz clock (groupByDate entries) j)) =
     isoDate (setDateBack tz (clock j) j)"
  using weeklyPoint_eq [of tz clock j entries] by auto

text \<open>Where the offset of the host's zone is the same at all times, a round moves back
  by whole days of UTC as well.\<close>

lemma isoDate_setDateBack:
  assumes "\<forall>t isUTC. tz t isUTC = tza"
  shows "isoDate (setDateBack tz t i) = isoDate t - int i"
proof -
  have "setDateBack tz t i = t + (- int i) * msPerDay"
    using assms by (simp add: setDateBack_def LocalTime_def UTC_def)
  moreover have "(t + (- int i) * msPerDay) div msPerDay = - int i + t div msPerDay"
    by (rule div_mult_self1) (simp add: msPerDay_def)
  ultimately show ?thesis by (simp add: isoDate_def)
qed

text \<open>So on a host whose zone keeps one offset, and when the seven readings of the clock
  fall on one day \<open>d\<close> of UTC, the dates of the answer are the seven days that end
  with \<open>d\<close>.\<close>

lemma weeklyData_dates_steady:
  assumes "\<forall>t isUTC. tz t isUTC = tza" and "\<forall>i. isoDate (clock i) = d"
  shows "\<exists>points. weeklyData tz clock entries = Inr points \<and>
     map wdate points = [d - 6, d - 5, d - 4, d - 3, d - 2, d - 1, d]"
  using assms(2)
  by (simp add: weeklyData_points wdate_weeklyPoint isoDate_setDateBack [OF assms(1)])

text \<open>A sample week on a host that runs in UTC: three entries on the day of the
  request, two on the day before, one without creation time.\<close>

lemma eval_week:
  "weeklyData (\<lambda>t isUTC. 0) (\<lambda>i. 1743377400000)
     [\<lparr>createdAt = Some 1743377000000, detectedMood = happy\<rparr>,
      \<lparr>createdAt = Some 1743290000000, detectedMood = happy\<rparr>,
      \<lparr>createdAt = Some 1743376000000, detectedMood = sad\<rparr>,
      \<lparr>createdAt = None, detectedMood = anxious\<rparr>,
      \<lparr>createdAt = Some 1743291000000, detectedMood = sad\<rparr>,
      \<lparr>createdAt = Some 1743375000000, detectedMood = happy\<rparr>] =
   Inr [\<lparr>wdate = 20171, wmood = neutral, wentries = 0\<rparr>,
        \<lparr>wdate = 20172, wmood = neutral, wentries = 0\<rparr>,
        \<lparr>wdate = 20173, wmood = neutral, wentries = 0\<rparr>,
        \<lparr>wdate = 20174, wmood = neutral, wentries = 0\<rparr>,
        \<lparr>wdate = 20175, wmood = neutral, wentries = 0\<rparr>,
        \<lparr>wdate = 20176, wmood = neutral, wentries = 2\<rparr>,
        \<lparr>wdate = 20177, wmood = happy, wentries = 3\<rparr>]"
  by code_simp

text \<open>Claim C3 asks for the dates of the seven consecutive days that end with the day of
  the request. The rounds move back in local time and name the day in UTC, so the claim
  fails where the offset of the host's zone changes inside the week. On a host in the
  zone of New York (five hours behind UTC until 2025-03-09T07:00Z, four hours from then
  on), a request at 2025-03-09T23:30Z, which is 19:30 local time, is on day 20156 of
  UTC; the round for the day before is 19:30 local time on 03-08, which is 00:30 on
  03-09 in UTC. The dates of the answer are the days 20151 to 20156 and 20156 once
  more: the day 20150 is missing and the day of the request is repeated.\<close>

theorem weeklyData_zone_change:
  "isoDate 1741563000000 = 20156 \<and>
   weeklyData
     (\<lambda>t isUTC. if isUTC then (if t < 1741503600000 then - 18000000 else - 14400000)
                  else (if t < 1741489200000 then - 18000000 else - 14400000))
     (\<lambda>i. 1741563000000) [] =
   Inr [\<lparr>wdate = 20151, wmood = neutral, wentries = 0\<rparr>,
        \<lparr>wdate = 20152, wmood = neutral, wentries = 0\<rparr>,
        \<lparr>wdate = 20153, wmood = neutral, wentries = 0\<rparr>,
        \<lparr>wdate = 20154, wmood = neutral, wentries = 0\<rparr>,
        \<lparr>wdate = 20155, wmood = neutral, wentries = 0\<rparr>,
        \<lparr>wdate = 20156, wmood = neutral, wentries = 0\<rparr>,
        \<lparr>wdate = 20156, wmood = neutral, wentries = 0\<rparr>]"
proof -
  have "isoDate 1741563000000 = 20156" by (simp add: isoDate_def msPerDay_def)
  moreover have "weeklyData
     (\<lambda>t isUTC. if isUTC then (if t < 1741503600000 then - 18000000 else - 14400000)
                  else (if t < 1741489200000 then - 18000000 else - 14400000))
     (\<lambda>i. 1741563000000) [] =
   Inr [\<lparr>wdate = 20151, wmood = neutral, wentries = 0\<rparr>,
        \<lparr>wdate = 20152, wmood = neutral, wentries = 0\<rparr>,
        \<lparr>wdate = 20153, wmood = neutral, wentries = 0\<rparr>,
        \<lparr>wdate = 20154, wmood = neutral, wentries = 0\<rparr>,
        \<lparr>wdate = 20155, wmood = neutral, wentries = 0\<rparr>,
        \<lparr>wdate = 20156, wmood = neutral, wentries = 0\<rparr>,
        \<lparr>wdate = 20156, wmood = neutral, wentries = 0\<rparr>]"
    by code_simp
  ultimately show ?thesis by (rule conjI)
qed

text \<open>The seven readings of the clock are another way to the same failure: on a host in
  UTC, when the last round reads the clock at 2025-03-10T00:00Z and the six rounds
  before it one millisecond earlier, day 20156 is missing from the answer.\<close>

lemma weeklyData_clock_passes_midnight:
  "weeklyData (\<lambda>t isUTC. 0) (\<lambda>i. if i = 0 then 1741564800000 else 1741564799999) [] =
   Inr [\<lparr>wdate = 20150, wmood = neutral, wentries = 0\<rparr>,
        \<lparr>wdate = 20151, wmood = neutral, wentries = 0\<rparr>,
        \<lparr>wdate = 20152, wmood = neutral, wentries = 0\<rparr>,
        \<lparr>wdate = 20153, wmood = neutral, wentries = 0\<rparr>,
        \<lparr>wdate = 20154, wmood = neutral, wentries = 0\<rparr>,
        \<lparr>wdate = 20155, wmood = neutral, wentries = 0\<rparr>,
        \<lparr>wdate = 20157, wmood = neutral, wentries = 0\<rparr>]"
  by code_simp

text \<open>Claim C4. Take any point of the answer and the moods of the entries whose date
  key is the point's date. The point's number of entries is the number of these moods,
  all of them and not only those of the winning mood. If there are none, the point's
  mood is neutral. If one mood occurs more often than every other mood of the day, it
  is the point's mood. If two different moods both occur as often as any mood of the
  day does, the point's mood is neutral.\<close>

theorem weeklyData_day_summary:
  assumes "weeklyData tz clock entries = Inr points" and "p \<in> set points"
  shows "let dayMoods = map detectedMood (filter (\<lambda>e. entryDateKey e = Some (wdate p)) entries)
         in wentries p = length dayMoods \<and>
            (dayMoods = [] \<longrightarrow> wmood p = neutral) \<and>
            (\<forall>m \<in> set dayMoods.
               (\<forall>m' \<in> set dayMoods. m' \<noteq> m \<longrightarrow> count_list dayMoods m' < count_list dayMoods m)
                 \<longrightarrow> wmood p = m) \<and>
            (\<forall>m1 \<in> set dayMoods. \<forall>m2 \<in> set dayMoods.
               m1 \<noteq> m2 \<and> count_list dayMoods m1 = count_list dayMoods m2 \<and>
               (\<forall>m' \<in> set dayMoods. count_list dayMoods m' \<le> count_list dayMoods m1)
                 \<longrightarrow> wmood p = neutral)"
proof -
  obtain j where p: "p = projr (weeklyPoint tz clock (groupByDate entries) j)"
    using assms by (auto simp: weeklyData_points)
  let ?k = "isoDate (setDateBack tz (clock j) j)"
  let ?dayMoods = "map detectedMood (filter (\<lambda>e. entryDateKey e = Some ?k) entries)"
  obtain m where m: "dominantMood ?dayMoods = Inr m"
    and "weeklyPoint tz clock (groupByDate entries) j =
         Inr \<lparr>wdate = ?k, wmood = m, wentries = length ?dayMoods\<rparr>"
    using weeklyPoint_eq [of tz clock j entries] by auto
  then have fields: "wdate p = ?k" "wmood p = m" "wentries p = length ?dayMoods"
    using p by simp_all
  have "?dayMoods = [] \<longrightarrow> m = neutral"
    using m by (auto simp: dominantMood_Nil)
  moreover have "\<forall>x \<in> set ?dayMoods.
      (\<forall>m' \<in> set ?dayMoods. m' \<noteq> x \<longrightarrow> count_list ?dayMoods m' < count_list ?dayMoods x)
        \<longrightarrow> m = x"
    using m dominantMood_unique [of _ ?dayMoods] by (metis sum.inject(2))
  moreover have "\<forall>m1 \<in> set ?dayMoods. \<forall>m2 \<in> set ?dayMoods.
      m1 \<noteq> m2 \<and> count_list ?dayMoods m1 = count_list ?dayMoods m2 \<and>
      (\<forall>m' \<in> set ?dayMoods. count_list ?dayMoods m' \<le> count_list ?dayMoods m1)
        \<longrightarrow> m = neutral"
    using m dominantMood_tie [of _ ?dayMoods] by (metis sum.inject(2))
  ultimately show ?thesis
    unfolding Let_def fields by (intro conjI) simp_all
qed

theorem weeklyData_day_summary_witness:
  "weeklyData (\<lambda>t isUTC. 0) (\<lambda>i. 1743377400000)
     [\<lparr>createdAt = Some 1743377000000, detectedMood = happy\<rparr>,
      \<lparr>createdAt = Some 1743290000000, detectedMood = happy\<rparr>,
      \<lparr>createdAt = Some 1743376000000, detectedMood = sad\<rparr>,
      \<lparr>createdAt = None, detectedMood = anxious\<rparr>,
      \<lparr>createdAt = Some 1743291000000, detectedMood = sad\<rparr>,
      \<lparr>createdAt = Some 1743375000000, detectedMood = happy\<rparr>] =
   Inr [\<lparr>wdate = 20171, wmood = neutral, wentries = 0\<rparr>,
        \<lparr>wdate = 20172, wmood = neutral, wentries = 0\<rparr>,
        \<lparr>wdate = 20173, wmood = neutral, wentries = 0\<rparr>,
        \<lparr>wdate = 20174, wmood = neutral, wentries = 0\<rparr>,
        \<lparr>wdate = 20175, wmood = neutral, wentries = 0\<rparr>,
        \<lparr>wdate = 20176, wmood = neutral, wentries = 2\<rparr>,
        \<lparr>wdate = 20177, wmood = happy, wentries = 3\<rparr>] \<and>
   (\<lparr>wdate = 20177, wmood = happy, wentries = 3\<rparr> \<in> set
       [\<lparr>wdate = 20171, wmood = neutral, wentries = 0\<rparr>,
        \<lparr>wdate = 20172, wmood = neutral, wentries = 0\<rparr>,
        \<lparr>wdate = 20173, wmood = neutral, wentries = 0\<rparr>,
        \<lparr>wdate = 20174, wmood = neutral, wentries = 0\<rparr>,
        \<lparr>wdate = 20175, wmood = neutral, wentries = 0\<rparr>,
        \<lparr>wdate = 20176, wmood = neutral, wentries = 2\<rparr>,
        \<lparr>wdate = 20177, wmood = happy, wentries = 3\<rparr>] \<and>
    map detectedMood (filter (\<lambda>e. entryDateKey e = Some 20177)
     [\<lparr>createdAt = Some 1743377000000, detectedMood = happy\<rparr>,
      \<lparr>createdAt = Some 1743290000000, detectedMood = happy\<rparr>,
      \<lparr>createdAt = Some 1743376000000, detectedMood = sad\<rparr>,
      \<lparr>createdAt = None, detectedMood = anxious\<rparr>,
      \<lparr>createdAt = Some 1743291000000, detectedMood = sad\<rparr>,
      \<lparr>createdAt = Some 1743375000000, detectedMood = happy\<rparr>]) = [happy, sad, happy] \<and>
    count_list [happy, sad, happy] sad < count_list [happy, sad, happy] happy) \<and>
   (\<lparr>wdate = 20176, wmood = neutral, wentries = 2\<rparr> \<in> set
       [\<lparr>wdate = 20171, wmood = neutral, wentries = 0\<rparr>,
        \<lparr>wdate = 20172, wmood = neutral, wentries = 0\<rparr>,
        \<lparr>wdate = 20173, wmood = neutral, wentries = 0\<rparr>,
        \<lparr>wdate = 20174, wmood = neutral, wentries = 0\<rparr>,
        \<lparr>wdate = 20175, wmood = neutral, wentries = 0\<rparr>,
        \<lparr>wdate = 20176, wmood = neutral, wentries = 2\<rparr>,
        \<lparr>wdate = 20177, wmood = happy, wentries = 3\<rparr>] \<and>
    map detectedMood (filter (\<lambda>e. entryDateKey e = Some 20176)
     [\<lparr>createdAt = Some 1743377000000, detectedMood = happy\<rparr>,
      \<lparr>createdAt = Some 1743290000000, detectedMood = happy\<rparr>,
      \<lparr>createdAt = Some 1743376000000, detectedMood = sad\<rparr>,
      \<lparr>createdAt = None, detectedMood = anxious\<rparr>,
      \<lparr>createdAt = Some 1743291000000, detectedMood = sad\<rparr>,
      \<lparr>createdAt = Some 1743375000000, detectedMood = happy\<rparr>]) = [happy, sad] \<and>
    count_list [happy, sad] happy = count_list [happy, sad] sad) \<and>
   (\<lparr>wdate = 20175, wmood = neutral, wentries = 0\<rparr> \<in> set
       [\<lparr>wdate = 20171, wmood = neutral, wentries = 0\<rparr>,
        \<lparr>wdate = 20172, wmood = neutral, wentries = 0\<rparr>,
        \<lparr>wdate = 20173, wmood = neutral, wentries = 0\<rparr>,
        \<lparr>wdate = 20174, wmood = neutral, wentries = 0\<rparr>,
        \<lparr>wdate = 20175, wmood = neutral, wentries = 0\<rparr>,
        \<lparr>wdate = 20176, wmood = neutral, wentries = 2\<rparr>,
        \<lparr>wdate = 20177, wmood = happy, wentries = 3\<rparr>] \<and>
    map detectedMood (filter (\<lambda>e. entryDateKey e = Some 20175)
     [\<lparr>createdAt = Some 1743377000000, detectedMood = happy\<rparr>,
      \<lparr>createdAt = Some 1743290000000, detectedMood = happy\<rparr>,
      \<lparr>createdAt = Some 1743376000000, detectedMood = sad\<rparr>,
      \<lparr>createdAt = None, detectedMood = anxious\<rparr>,
      \<lparr>createdAt = Some 1743291000000, detectedMood = sad\<rparr>,
      \<lparr>createdAt = Some 1743375000000, detectedMood = happy\<rparr>]) = [])"
proof -
  let ?E = "[\<lparr>createdAt = Some 1743377000000, detectedMood = happy\<rparr>,
      \<lparr>createdAt = Some 1743290000000, detectedMood = happy\<rparr>,
      \<lparr>createdAt = Some 1743376000000, detectedMood = sad\<rparr>,
      \<lparr>createdAt = None, detectedMood = anxious\<rparr>,
      \<lparr>createdAt = Some 1743291000000, detectedMood = sad\<rparr>,
      \<lparr>createdAt = Some 1743375000000, detectedMood = happy\<rparr>]"
  let ?P = "[\<lparr>wdate = 20171, wmood = neutral, wentries = 0\<rparr>,
        \<lparr>wdate = 20172, wmood = neutral, wentries = 0\<rparr>,
        \<lparr>wdate = 20173, wmood = neutral, wentries = 0\<rparr>,
        \<lparr>wdate = 20174, wmood = neutral, wentries = 0\<rparr>,
        \<lparr>wdate = 20175, wmood = neutral, wentries = 0\<rparr>,
        \<lparr>wdate = 20176, wmood = neutral, wentries = 2\<rparr>,
        \<lparr>wdate = 20177, wmood = happy, wentries = 3\<rparr>]"
  have mem: "\<lparr>wdate = 20177, wmood = happy, wentries = 3\<rparr> \<in> set ?P"
    "\<lparr>wdate = 20176, wmood = neutral, wentries = 2\<rparr> \<in> set ?P"
    "\<lparr>wdate = 20175, wmood = neutral, wentries = 0\<rparr> \<in> set ?P"
    by simp_all
  have moods:
    "map detectedMood (filter (\<lambda>e. entryDateKey e = Some 20177) ?E) = [happy, sad, happy]"
    "map detectedMood (filter (\<lambda>e. entryDateKey e = Some 20176) ?E) = [happy, sad]"
    "map detectedMood (filter (\<lambda>e. entryDateKey e = Some 20175) ?E) = []"
    by (simp_all add: entryDateKey_def isoDate_def msPerDay_def)
  show ?thesis
    using weeklyData_day_summary [OF eval_week mem(1)]
      weeklyData_day_summary [OF eval_week mem(2)]
      weeklyData_day_summary [OF eval_week mem(3)] eval_week mem moods
    by simp
qed

end
